theory Spec2Isabelle
  imports Complex_Main
begin

section \<open>RAMP: stochastic load-profile engine (ramp/core)\<close>

text \<open>
  A shallow embedding of \<^verbatim>\<open>ramp/core/core.py\<close> and
  \<^verbatim>\<open>ramp/core/stochastic_process.py\<close>.

  \<^item> Minutes, window bounds, counts and durations are Python integers: \<open>int\<close>.
  \<^item> Powers and profile samples are Python floats, idealised as \<open>real\<close>: the model
    computes with exact arithmetic and does not follow binary rounding.
  \<^item> A numpy vector is a list; the index vector \<^verbatim>\<open>np.arange(a, b)\<close> is the list
    \<open>[a..b - 1]\<close>; a \<^verbatim>\<open>slice(start, stop, None)\<close> and a window
    \<^verbatim>\<open>[start, end]\<close> are pairs of integers.
  \<^item> Every \<^verbatim>\<open>raise\<close> of the source, and every exception of numpy or of
    Python's indexing the code can run into, is a value \<open>Inl e\<close> of a sum type.
  \<^item> The random number generator is an oracle: each function that draws takes the
    raw draws as arguments. \<^verbatim>\<open>random.random()\<close> lies in \<open>[0, 1)\<close>, so a
    raw real draw is reduced to its fractional part; \<^verbatim>\<open>random.randint(a, b)\<close>
    is \<open>a\<close> plus a value below the width of the range, so a raw natural draw is reduced
    modulo the width; a Gaussian draw is \<open>mu + z * sigma\<close> for a raw deviate \<open>z\<close>,
    as in CPython's \<^verbatim>\<open>random\<close> module. Every draw Python can make is the
    image of some raw draw, and conversely.
\<close>

subsection \<open>Exceptions\<close>

datatype error =
    InvalidDayIndex      \<comment> \<open>ValueError: prof\_i should be an integer in range of 0 to 364\<close>
  | WrongPowerSize       \<comment> \<open>ValueError: wrong size of array. array size should be (365,1)\<close>
  | WrongPowerType       \<comment> \<open>ValueError: wrong data type for power\<close>
  | JsonError            \<comment> \<open>pandas could not read the string as a table\<close>
  | FuncCycleTooLarge    \<comment> \<open>ValueError of rand\_total\_time\_of\_use\<close>
  | FishyUpperLimit      \<comment> \<open>ValueError of rand\_switch\_on\_window\<close>
  | InvalidWindow        \<comment> \<open>ramp.errors\_logs.errors.InvalidWindow\<close>
  | NumpyValueError      \<comment> \<open>numpy: negative dimensions, or shapes that do not broadcast\<close>
  | EmptyRange           \<comment> \<open>ValueError of random.randint on an empty range\<close>
  | IndexError
  | TypeError
  | KeyError
  | AttributeError
  | ZeroDivisionError

subsection \<open>Python and numpy primitives\<close>

definition py_round :: "real \<Rightarrow> int" where
  \<comment> \<open>Python's \<^verbatim>\<open>round\<close> and \<^verbatim>\<open>np.round\<close>: ties go to the even integer.\<close>
  "py_round x =
     (let f = \<lfloor>x\<rfloor>; r = x - of_int f
      in if r < 1 / 2 then f else if 1 / 2 < r then f + 1 else if even f then f else f + 1)"

definition py_int :: "real \<Rightarrow> int" where
  \<comment> \<open>\<^verbatim>\<open>int(x)\<close> of a float truncates toward zero.\<close>
  "py_int x = (if 0 \<le> x then \<lfloor>x\<rfloor> else \<lceil>x\<rceil>)"

definition uniform :: "real \<Rightarrow> real \<Rightarrow> real \<Rightarrow> real" where
  \<comment> \<open>\<^verbatim>\<open>random.uniform(a, b)\<close> is \<^verbatim>\<open>a + (b - a) * random()\<close>.\<close>
  "uniform a b x = a + (b - a) * frac x"

definition randint :: "int \<Rightarrow> int \<Rightarrow> nat \<Rightarrow> error + int" where
  \<comment> \<open>\<^verbatim>\<open>random.randint(a, b)\<close>: an integer of \<open>[a, b]\<close>; raises on an empty range.\<close>
  "randint a b k = (if b < a then Inl EmptyRange else Inr (a + int k mod (b - a + 1)))"

definition gauss :: "real \<Rightarrow> real \<Rightarrow> real \<Rightarrow> real" where
  \<comment> \<open>\<^verbatim>\<open>random.gauss\<close> and \<^verbatim>\<open>random.normalvariate\<close>, from the deviate \<open>z\<close>.\<close>
  "gauss mu sigma z = mu + z * sigma"

definition arange :: "int \<Rightarrow> int \<Rightarrow> int list" where
  \<comment> \<open>\<^verbatim>\<open>np.arange(a, b)\<close> and \<^verbatim>\<open>range(a, b)\<close>: empty when \<open>b \<le> a\<close>.\<close>
  "arange a b = [a..b - 1]"

definition mean :: "real list \<Rightarrow> real" where
  \<comment> \<open>\<^verbatim>\<open>np.mean\<close> and \<^verbatim>\<open>np.average\<close> of a vector that is not empty.\<close>
  "mean xs = sum_list xs / real (length xs)"

definition vadd :: "real list \<Rightarrow> real list \<Rightarrow> real list" where
  \<comment> \<open>Sum of two vectors of one length.\<close>
  "vadd xs ys = map2 (+) xs ys"

type_synonym window = "int \<times> int"
type_synonym spot = "int \<times> int"

definition slice_index :: "int \<Rightarrow> nat \<Rightarrow> nat" where
  \<comment> \<open>A slice bound on a vector of length \<open>n\<close>: a negative bound counts from the end,
      and every bound is clipped to \<open>[0, n]\<close>.\<close>
  "slice_index i n = (if i < 0 then nat (max (i + int n) 0) else min (nat i) n)"

definition slice_fill :: "real list \<Rightarrow> window \<Rightarrow> real \<Rightarrow> error + real list" where
  \<comment> \<open>\<^verbatim>\<open>xs[w[0]:w[1]] = np.full(np.diff(w), v)\<close>: \<^verbatim>\<open>np.full\<close> refuses a
      negative length, and the assignment needs the lengths to agree (a single value
      broadcasts).\<close>
  "slice_fill xs w v =
     (let d = snd w - fst w
      in if d < 0 then Inl NumpyValueError
         else
           let s = slice_index (fst w) (length xs);
               e = slice_index (snd w) (length xs);
               m = e - s
           in if d = int m \<or> d = 1
              then Inr (take s xs @ replicate m v @ drop (s + m) xs)
              else Inl NumpyValueError)"

fun put_from :: "nat \<Rightarrow> real list \<Rightarrow> int list \<Rightarrow> real list \<Rightarrow> error + real list" where
  "put_from j xs [] vs = Inr xs"
| "put_from j xs (i # is) vs =
     (let n = int (length xs)
      in if i < - n \<or> n \<le> i then Inl IndexError
         else put_from (Suc j) (xs[nat (if i < 0 then i + n else i) := vs ! (j mod length vs)])
                is vs)"

definition np_put :: "real list \<Rightarrow> int list \<Rightarrow> real list \<Rightarrow> error + real list" where
  \<comment> \<open>\<^verbatim>\<open>np.put(xs, ind, vs)\<close>: the values are repeated as necessary; nothing is
      written when there is no value; an index out of bounds raises.\<close>
  "np_put xs ind vs = (if vs = [] then Inr xs else put_from 0 xs ind vs)"

subsection \<open>Helpers of \<^verbatim>\<open>ramp.core.utils\<close> and \<^verbatim>\<open>ramp.core.constants\<close>\<close>

definition random_variation :: "real \<Rightarrow> real \<Rightarrow> real \<Rightarrow> real" where
  \<comment> \<open>Modelled from the spec: \<^verbatim>\<open>ramp/core/utils.py\<close> (random\_variation) is not
      among the sources. ``random\_variation(var, norm=1) returns
      norm * uniform(1 - var, 1 + var) when var > 0, else norm.''\<close>
  "random_variation var nrm x = (if 0 < var then nrm * uniform (1 - var) (1 + var) x else nrm)"

definition within_peak_time_window :: "int \<Rightarrow> int \<Rightarrow> int \<Rightarrow> int \<Rightarrow> bool" where
  \<comment> \<open>Modelled from the spec: \<^verbatim>\<open>ramp/core/utils.py\<close> (within\_peak\_time\_window) is
      not among the sources. ``inside\_peak = I.first \<le> peak\_range.last and
      I.last \<ge> peak\_range.first''.\<close>
  "within_peak_time_window win_start win_stop peak_start peak_stop =
     (win_start \<le> peak_stop \<and> peak_start \<le> win_stop)"

record switch_on_parameters =
  \<comment> \<open>The triple returned by \<^verbatim>\<open>switch_on_parameters()\<close> of
      \<^verbatim>\<open>ramp/core/constants.py\<close>, which is not among the sources: a parameter.\<close>
  s_peak :: real
  mu_peak :: real
  op_factor :: real

subsection \<open>Appliance\<close>

record appliance =
  number :: int
  power_series :: "real list"  \<comment> \<open>\<^verbatim>\<open>self.power\<close>\<close>
  num_windows :: int
  func_time :: int
  time_fraction_random_variability :: real
  func_cycle :: int
  fixed :: string
  fixed_cycle :: int
  occasional_use :: real
  flat :: string
  thermal_p_var :: real
  pref_index :: int
  wd_we_type :: int
  random_var_w :: real
  window_1 :: window
  window_2 :: window
  window_3 :: window
  random_var_1 :: int
  random_var_2 :: int
  random_var_3 :: int
  daily_use :: "real list option"
  free_spots :: "spot list option"
  cw11 :: window
  cw12 :: window
  cw21 :: window
  cw22 :: window
  cw31 :: window
  cw32 :: window
  random_cycle1 :: "real list"
  random_cycle2 :: "real list"
  random_cycle3 :: "real list"

text \<open>
  The fields \<^verbatim>\<open>p_11 .. r_c3\<close> of the source are read only as arguments of
  \<^verbatim>\<open>duty_cycle\<close> and \<^verbatim>\<open>random_choice\<close> (see \<open>assign_random_cycles\<close> below) and
  are left out, as are \<^verbatim>\<open>name\<close> and the back-reference \<^verbatim>\<open>user\<close>: the one
  field read through it, \<^verbatim>\<open>user.user_preference\<close>, is passed as an argument.
\<close>

definition ebind :: "error + 'a \<Rightarrow> ('a \<Rightarrow> error + 'b) \<Rightarrow> error + 'b" where
  \<comment> \<open>Sequencing: an exception of the first computation is the result.\<close>
  "ebind m f = (case m of Inl e \<Rightarrow> Inl e | Inr x \<Rightarrow> f x)"

subsubsection \<open>Construction\<close>

datatype power_arg =
    PowerNumber real
      \<comment> \<open>a \<^verbatim>\<open>float\<close> or an \<^verbatim>\<open>int\<close>\<close>
  | PowerDataFrame "real list list"
      \<comment> \<open>a \<^verbatim>\<open>pd.DataFrame\<close>, given by its columns (all of one length)\<close>
  | PowerString "real list list option"
      \<comment> \<open>a \<^verbatim>\<open>str\<close>, given by the table \<^verbatim>\<open>pd.read_json\<close> reads from it
          (its columns), or \<open>None\<close> when pandas cannot read it\<close>
  | PowerSequence "real list"
      \<comment> \<open>a list, tuple or \<^verbatim>\<open>np.ndarray\<close>: none of the \<^verbatim>\<open>isinstance\<close> tests holds\<close>

definition frame_shape :: "real list list \<Rightarrow> nat \<times> nat" where
  \<comment> \<open>\<^verbatim>\<open>DataFrame.shape\<close>: (rows, columns).\<close>
  "frame_shape cols = (case cols of [] \<Rightarrow> (0, 0) | c # _ \<Rightarrow> (length c, length cols))"

definition first_column :: "real list list \<Rightarrow> error + real list" where
  \<comment> \<open>\<^verbatim>\<open>.values[:,0]\<close>\<close>
  "first_column cols = (case cols of [] \<Rightarrow> Inl IndexError | c # _ \<Rightarrow> Inr c)"

definition Appliance_init_power :: "power_arg \<Rightarrow> error + real list" where
  \<comment> \<open>The normalisation of \<^verbatim>\<open>power\<close> in \<^verbatim>\<open>Appliance.__init__\<close>.\<close>
  "Appliance_init_power p =
     (case p of
        PowerDataFrame cols \<Rightarrow>
          if frame_shape cols = (365, 1) then first_column cols else Inl WrongPowerSize
      | PowerString parsed \<Rightarrow>
          (case parsed of None \<Rightarrow> Inl JsonError | Some cols \<Rightarrow> first_column cols)
      | PowerNumber x \<Rightarrow> Inr (map (\<lambda>one. x * one) (replicate 366 1))
      | PowerSequence xs \<Rightarrow> Inl WrongPowerType)"

definition Appliance_init ::
  "int \<Rightarrow> power_arg \<Rightarrow> int \<Rightarrow> int \<Rightarrow> real \<Rightarrow> int \<Rightarrow> string \<Rightarrow> int \<Rightarrow> real \<Rightarrow> string \<Rightarrow> real
     \<Rightarrow> int \<Rightarrow> int \<Rightarrow> error + appliance" where
  \<comment> \<open>\<^verbatim>\<open>Appliance.__init__\<close>, the arguments in the order of the source.\<close>
  "Appliance_init number' power' num_windows' func_time' time_fraction_random_variability'
       func_cycle' fixed' fixed_cycle' occasional_use' flat' thermal_p_var' pref_index'
       wd_we_type' =
     ebind (Appliance_init_power power') (\<lambda>p. Inr
       \<lparr> number = number', power_series = p, num_windows = num_windows',
         func_time = func_time',
         time_fraction_random_variability = time_fraction_random_variability',
         func_cycle = func_cycle', fixed = fixed', fixed_cycle = fixed_cycle',
         occasional_use = occasional_use', flat = flat', thermal_p_var = thermal_p_var',
         pref_index = pref_index', wd_we_type = wd_we_type',
         random_var_w = 0, window_1 = (0, 0), window_2 = (0, 0), window_3 = (0, 0),
         random_var_1 = 0, random_var_2 = 0, random_var_3 = 0,
         daily_use = None, free_spots = None,
         cw11 = (0, 0), cw12 = (0, 0), cw21 = (0, 0), cw22 = (0, 0),
         cw31 = (0, 0), cw32 = (0, 0),
         random_cycle1 = [], random_cycle2 = [], random_cycle3 = [] \<rparr>)"

subsubsection \<open>Windows and the theoretical maximum\<close>

definition np_diff :: "window \<Rightarrow> int" where
  "np_diff w = snd w - fst w"

definition window_time :: "appliance \<Rightarrow> error + int" where
  \<comment> \<open>The loop over \<^verbatim>\<open>range(1, num_windows + 1)\<close> of \<^verbatim>\<open>windows\<close>; only
      \<^verbatim>\<open>window_1 .. window_3\<close> are attributes.\<close>
  "window_time a =
     (if 3 < num_windows a then Inl AttributeError
      else Inr ((if 1 \<le> num_windows a then np_diff (window_1 a) else 0)
              + (if 2 \<le> num_windows a then np_diff (window_2 a) else 0)
              + (if 3 \<le> num_windows a then np_diff (window_3 a) else 0)))"

definition windows ::
  "appliance \<Rightarrow> window option \<Rightarrow> window option \<Rightarrow> real \<Rightarrow> window option \<Rightarrow> error + appliance" where
  \<comment> \<open>\<^verbatim>\<open>Appliance.windows(window_1, window_2, random_var_w, window_3)\<close>. The source
      also appends the appliance to its user's list; here the user holds its appliances
      (\<open>App_list\<close> below). The products \<^verbatim>\<open>random_var_w * np.diff(window)\<close> are
      taken in the reals; the source truncates the product of two floats, which binary
      rounding can leave just below an integer that the exact product reaches (so
      \<^verbatim>\<open>int(0.35 * 1440)\<close> is 503, and 504 here). With \<open>random_var_w = 0\<close> both are 0.\<close>
  "windows a w1 w2 random_var_w' w3 =
     (let a1 = a\<lparr>window_1 := (case w1 of None \<Rightarrow> (0, 1440) | Some w \<Rightarrow> w)\<rparr>
      in if w2 = None \<and> 2 \<le> num_windows a1 then Inl InvalidWindow
         else
           let a2 = (case w2 of None \<Rightarrow> a1 | Some w \<Rightarrow> a1\<lparr>window_2 := w\<rparr>)
           in if w3 = None \<and> num_windows a2 = 3 then Inl InvalidWindow
              else
                let a3 = (case w3 of None \<Rightarrow> a2 | Some w \<Rightarrow> a2\<lparr>window_3 := w\<rparr>)
                in ebind (window_time a3) (\<lambda>wt.
                     if wt < func_time a3 then Inl InvalidWindow
                     else
                       ebind (slice_fill (replicate 1440 0) (window_1 a3) 0.001) (\<lambda>d1.
                       ebind (slice_fill d1 (window_2 a3) 0.001) (\<lambda>d2.
                       ebind (slice_fill d2 (window_3 a3) 0.001) (\<lambda>d3.
                         let a4 = a3\<lparr>random_var_w := random_var_w',
                                     daily_use := Some d3,
                                     random_var_1 :=
                                       py_int (random_var_w' * real_of_int (np_diff (window_1 a3))),
                                     random_var_2 :=
                                       py_int (random_var_w' * real_of_int (np_diff (window_2 a3))),
                                     random_var_3 :=
                                       py_int (random_var_w' * real_of_int (np_diff (window_3 a3)))\<rparr>
                         in Inr (if fixed_cycle a4 = 1
                                 then a4\<lparr>cw11 := window_1 a4, cw12 := window_2 a4\<rparr>
                                 else a4))))))"

definition maximum_profile :: "appliance \<Rightarrow> error + real list" where
  \<comment> \<open>\<^verbatim>\<open>Appliance.maximum_profile\<close>:
      \<^verbatim>\<open>self.daily_use * np.mean(self.power) * self.number\<close>; \<^verbatim>\<open>daily_use\<close> is
      \<^verbatim>\<open>None\<close> until \<^verbatim>\<open>windows\<close> has run.\<close>
  "maximum_profile a =
     (case daily_use a of
        None \<Rightarrow> Inl TypeError
      | Some du \<Rightarrow> Inr (map (\<lambda>x. x * mean (power_series a) * real_of_int (number a)) du))"

subsubsection \<open>Coincident switch-on\<close>

definition calc_coincident_switch_on ::
  "appliance \<Rightarrow> bool \<Rightarrow> switch_on_parameters \<Rightarrow> real \<Rightarrow> real \<Rightarrow> error + int" where
  \<comment> \<open>\<open>z\<close> is the Gaussian deviate of the peak branch, \<open>x\<close> the uniform draw of the
      off-peak branch. The off-peak branch divides by \<^verbatim>\<open>self.number\<close>. \<^verbatim>\<open>np.max\<close> of
      an empty selection raises ValueError, which the source catches.\<close>
  "calc_coincident_switch_on a inside_peak_window sp z x =
     (if inside_peak_window \<and> fixed a = ''no'' then
        Inr (min (number a)
          (max 1 \<lceil>gauss (real_of_int (number a) * mu_peak sp + 0.5)
                      (s_peak sp * real_of_int (number a) * mu_peak sp) z\<rceil>))
      else if \<not> inside_peak_window \<and> fixed a = ''no'' then
        (if number a = 0 then Inl ZeroDivisionError
         else
           let prob = uniform 0
                        ((real_of_int (number a) - op_factor sp) / real_of_int (number a)) x;
               array = map (\<lambda>i. real_of_int i / real_of_int (number a)) (arange 0 (number a));
               sel = filter (\<lambda>i. array ! i \<le> prob) [0..<length array]
           in Inr (if sel = [] then 1 else int (Max (set sel)) + 1))
      else Inr (number a))"

subsubsection \<open>Randomised windows and total time of use\<close>

definition calc_rand_window :: "appliance \<Rightarrow> int \<Rightarrow> nat \<Rightarrow> nat \<Rightarrow> error + window" where
  \<comment> \<open>\<^verbatim>\<open>calc_rand_window(window_idx)\<close> with the default limits \<^verbatim>\<open>[0, 1440]\<close>;
      \<open>ks\<close> and \<open>ke\<close> are the draws of the two \<^verbatim>\<open>randint\<close> calls.\<close>
  "calc_rand_window a window_idx ks ke =
     (if window_idx < 1 \<or> 3 < window_idx then Inl AttributeError
      else
        let w = (if window_idx = 1 then window_1 a
                 else if window_idx = 2 then window_2 a else window_3 a);
            rv = (if window_idx = 1 then random_var_1 a
                  else if window_idx = 2 then random_var_2 a else random_var_3 a)
        in ebind (randint (fst w - rv) (fst w + rv) ks) (\<lambda>s.
           ebind (randint (snd w - rv) (snd w + rv) ke) (\<lambda>e.
             Inr (if s < 0 then 0 else s, if 1440 < e then 1440 else e))))"

definition rand_total_time_of_use ::
  "appliance \<Rightarrow> window \<Rightarrow> window \<Rightarrow> window \<Rightarrow> real \<Rightarrow> real \<Rightarrow> error + int" where
  \<comment> \<open>\<open>xv\<close> is the draw of \<^verbatim>\<open>random_variation\<close>, \<open>xt\<close> the draw of
      \<^verbatim>\<open>random.uniform\<close>.\<close>
  "rand_total_time_of_use a rand_window_1 rand_window_2 rand_window_3 xv xt =
     (let random_var_t = random_variation (time_fraction_random_variability a) 1 xv;
          rand_time0 = py_round (uniform (real_of_int (func_time a))
                         (real_of_int (py_int (real_of_int (func_time a) * random_var_t))) xt);
          rand_time1 = (if rand_time0 < func_cycle a then func_cycle a else rand_time0);
          total_time = (snd rand_window_1 - fst rand_window_1)
                     + (snd rand_window_2 - fst rand_window_2)
                     + (snd rand_window_3 - fst rand_window_3);
          rand_time2 = (if 0.99 * real_of_int total_time < real_of_int rand_time1
                        then py_int (0.99 * real_of_int total_time) else rand_time1)
      in if rand_time2 < func_cycle a then Inl FuncCycleTooLarge else Inr rand_time2)"

subsubsection \<open>Choosing a switch-on interval\<close>

fun find_index :: "('a \<Rightarrow> bool) \<Rightarrow> 'a list \<Rightarrow> nat option" where
  \<comment> \<open>The \<^verbatim>\<open>for i, fs in enumerate(...): if ...: spot_idx = i; break\<close> of the source.\<close>
  "find_index P [] = None"
| "find_index P (x # xs) =
     (if P x then Some 0 else (case find_index P xs of None \<Rightarrow> None | Some i \<Rightarrow> Some (Suc i)))"

definition indexes_choice :: "spot list \<Rightarrow> int \<Rightarrow> int list" where
  "indexes_choice spots fc =
     concat (map (\<lambda>s. if fc \<le> snd s - fst s then arange (fst s) (snd s - fc + 1) else []) spots)"

definition rand_switch_on_window ::
  "spot list \<Rightarrow> int \<Rightarrow> int \<Rightarrow> nat \<Rightarrow> real \<Rightarrow> error + int list option" where
  \<comment> \<open>\<^verbatim>\<open>rand_switch_on_window(rand_time)\<close>, reading \<^verbatim>\<open>self.free_spots\<close> and
      \<^verbatim>\<open>self.func_cycle\<close>; \<open>k\<close> is the draw of \<^verbatim>\<open>randint\<close>, \<open>x\<close> the draw of
      \<^verbatim>\<open>uniform\<close>.\<close>
  "rand_switch_on_window spots fc rand_time k x =
     (let choices = indexes_choice spots fc;
          n_choices = int (length choices)
      in if 0 < n_choices then
           ebind (randint 0 (n_choices - 1) k) (\<lambda>r.
             let switch_on = choices ! nat r
             in case find_index (\<lambda>fs. fst fs \<le> switch_on \<and> switch_on \<le> snd fs - fc) spots of
                  None \<Rightarrow> Inl TypeError
                | Some spot_idx \<Rightarrow>
                    let largest_duration = min rand_time (snd (spots ! spot_idx) - switch_on)
                    in if fc < largest_duration then
                         Inr (Some (arange switch_on
                           (switch_on + py_int (uniform (real_of_int fc)
                                                  (real_of_int largest_duration) x))))
                       else if largest_duration = fc then
                         Inr (Some (arange switch_on (switch_on + largest_duration)))
                       else Inl FishyUpperLimit)
         else Inr None)"

subsubsection \<open>Free-spot bookkeeping\<close>

definition update_available_time_for_switch_on_events ::
  "spot list \<Rightarrow> int list \<Rightarrow> error + spot list" where
  \<comment> \<open>The new value of \<^verbatim>\<open>self.free_spots\<close>. \<^verbatim>\<open>indexes[0]\<close> and
      \<^verbatim>\<open>indexes[-1]\<close> are read once there is a spot to test.\<close>
  "update_available_time_for_switch_on_events spots indexes =
     (if spots = [] then Inr spots
      else if indexes = [] then Inl IndexError
      else
        let first = hd indexes; final = last indexes
        in case find_index (\<lambda>fs. fst fs \<le> first \<and> final \<le> snd fs) spots of
             None \<Rightarrow> Inr spots
           | Some spot_idx \<Rightarrow>
               let spot_to_split = spots ! spot_idx;
                   before = take spot_idx spots;
                   after = drop (Suc spot_idx) spots
               in Inr
                 (if first = fst spot_to_split \<and> final = snd spot_to_split then before @ after
                  else if first = fst spot_to_split then
                    before @ [(final + 1, snd spot_to_split)] @ after
                  else if final = snd spot_to_split then
                    before @ [(fst spot_to_split, first)] @ after
                  else
                    before @ [(fst spot_to_split, first), (final + 1, snd spot_to_split)] @ after))"

subsubsection \<open>Writing a switch-on event\<close>

record step_draws =
  \<comment> \<open>The raw draws of one pass of the switch-on loop.\<close>
  choice_k :: nat          \<comment> \<open>\<^verbatim>\<open>randint(0, n_choices-1)\<close>\<close>
  duration_x :: real       \<comment> \<open>\<^verbatim>\<open>uniform(func_cycle, largest_duration)\<close>\<close>
  coincidence_z :: real    \<comment> \<open>the Gaussian deviate of the peak coincidence\<close>
  coincidence_x :: real    \<comment> \<open>the uniform draw of the off-peak coincidence\<close>
  thermal_x :: real        \<comment> \<open>\<^verbatim>\<open>random_variation(thermal_p_var, ...)\<close>\<close>

record day_draws =
  \<comment> \<open>The raw draws of one call of \<^verbatim>\<open>generate_load_profile\<close>. The vectors returned by
      \<^verbatim>\<open>duty_cycle\<close> and \<^verbatim>\<open>random_choice\<close> (of \<^verbatim>\<open>ramp/core/utils.py\<close>, not
      among the sources) are random too and are taken as they come.\<close>
  preference_k :: nat      \<comment> \<open>\<^verbatim>\<open>randint(1, user_preference)\<close>\<close>
  occasional_x :: real     \<comment> \<open>\<^verbatim>\<open>uniform(0, 1)\<close>\<close>
  window_k :: "int \<Rightarrow> nat \<times> nat"
                           \<comment> \<open>the two \<^verbatim>\<open>randint\<close> of \<^verbatim>\<open>calc_rand_window(window_idx)\<close>\<close>
  time_var_x :: real       \<comment> \<open>\<^verbatim>\<open>random_variation(time_fraction_random_variability)\<close>\<close>
  time_x :: real           \<comment> \<open>\<^verbatim>\<open>uniform(func_time, ...)\<close>\<close>
  duty_cycle_1 :: "real list"
  duty_cycle_2 :: "real list"
  random_choice_1 :: "real list"
  random_choice_2 :: "real list"
  random_choice_3 :: "real list"
  step :: "nat \<Rightarrow> step_draws"

record loop_state =
  ls_daily_use :: "real list"     \<comment> \<open>\<^verbatim>\<open>self.daily_use\<close>\<close>
  ls_free_spots :: "spot list"    \<comment> \<open>\<^verbatim>\<open>self.free_spots\<close>\<close>
  ls_events :: "int list list"
    \<comment> \<open>history variable, not in the source: the index vectors written so far\<close>

definition assign_random_cycles :: "appliance \<Rightarrow> day_draws \<Rightarrow> appliance" where
  "assign_random_cycles a d =
     (if 1 \<le> fixed_cycle a then
        let a1 = a\<lparr>random_cycle1 := duty_cycle_1 d, random_cycle2 := duty_cycle_1 d,
                   random_cycle3 := duty_cycle_1 d\<rparr>
        in if 2 \<le> fixed_cycle a then
             let a2 = a1\<lparr>random_cycle2 := duty_cycle_2 d\<rparr>
             in if 3 \<le> fixed_cycle a then
                  a2\<lparr>random_cycle1 := random_choice_1 d, random_cycle2 := random_choice_2 d,
                      random_cycle3 := random_choice_3 d\<rparr>
                else a2
           else a1
      else a)"

definition in_range :: "int \<Rightarrow> window \<Rightarrow> bool" where
  \<comment> \<open>\<^verbatim>\<open>evaluate in range(cw[0], cw[1])\<close>\<close>
  "in_range m cw = (fst cw \<le> m \<and> m < snd cw)"

definition update_daily_use ::
  "appliance \<Rightarrow> int \<Rightarrow> real \<Rightarrow> int list \<Rightarrow> real \<Rightarrow> loop_state \<Rightarrow> error + loop_state" where
  "update_daily_use a coincidence power' indexes x st =
     ebind
       (if 0 < fixed_cycle a then
          let evaluate = (if indexes \<noteq> [] then py_round (mean (map real_of_int indexes)) else 0)
          in if in_range evaluate (cw11 a) \<or> in_range evaluate (cw12 a) then
               np_put (ls_daily_use st) indexes
                 (map (\<lambda>v. v * real_of_int coincidence) (random_cycle1 a))
             else if in_range evaluate (cw21 a) \<or> in_range evaluate (cw22 a) then
               np_put (ls_daily_use st) indexes
                 (map (\<lambda>v. v * real_of_int coincidence) (random_cycle2 a))
             else
               np_put (ls_daily_use st) indexes
                 (map (\<lambda>v. v * real_of_int coincidence) (random_cycle3 a))
        else
          np_put (ls_daily_use st) indexes
            [random_variation (thermal_p_var a) (real_of_int coincidence * power') x])
       (\<lambda>du. ebind (update_available_time_for_switch_on_events (ls_free_spots st) indexes)
          (\<lambda>spots. Inr \<lparr>ls_daily_use = du, ls_free_spots = spots,
                        ls_events = ls_events st @ [indexes]\<rparr>))"

definition switch_on_event ::
  "appliance \<Rightarrow> switch_on_parameters \<Rightarrow> int list \<Rightarrow> real \<Rightarrow> step_draws \<Rightarrow> int list
     \<Rightarrow> loop_state \<Rightarrow> error + loop_state" where
  \<comment> \<open>The three statements both branches of the loop share: the peak test (which reads
      the ends of \<^verbatim>\<open>indexes\<close> and of \<^verbatim>\<open>peak_time_range\<close>), the coincidence and the
      update.\<close>
  "switch_on_event a sp peak_time_range power' sd indexes st =
     (if indexes = [] \<or> peak_time_range = [] then Inl IndexError
      else
        let inside_peak_window =
              within_peak_time_window (hd indexes) (last indexes)
                (hd peak_time_range) (last peak_time_range)
        in ebind (calc_coincident_switch_on a inside_peak_window sp
                    (coincidence_z sd) (coincidence_x sd))
             (\<lambda>coincidence.
                update_daily_use a coincidence power' indexes (thermal_x sd) st))"

function switch_on_loop ::
  "appliance \<Rightarrow> switch_on_parameters \<Rightarrow> int list \<Rightarrow> real \<Rightarrow> int \<Rightarrow> (nat \<Rightarrow> step_draws) \<Rightarrow> nat
     \<Rightarrow> int \<Rightarrow> loop_state \<Rightarrow> error + loop_state" where
  \<comment> \<open>\<^verbatim>\<open>while tot_time <= rand_time\<close>, at pass \<open>n\<close>.\<close>
  "switch_on_loop a sp peak_time_range power' rand_time ds n tot_time st =
     (if tot_time \<le> rand_time then
        (case rand_switch_on_window (ls_free_spots st) (func_cycle a) rand_time
                (choice_k (ds n)) (duration_x (ds n)) of
           Inl e \<Rightarrow> Inl e
         | Inr None \<Rightarrow> Inr st
         | Inr (Some indexes) \<Rightarrow>
             let tot_time' = tot_time + int (length indexes)
             in if rand_time < tot_time' then
                  let indexes_adj = take (length indexes - nat (tot_time' - rand_time)) indexes
                  in if 0 < length indexes_adj
                     then switch_on_event a sp peak_time_range power' (ds n) indexes_adj st
                     else Inr st
                else if indexes = [] then Inl IndexError
                else
                  (case switch_on_event a sp peak_time_range power' (ds n) indexes st of
                     Inl e \<Rightarrow> Inl e
                   | Inr st' \<Rightarrow>
                       switch_on_loop a sp peak_time_range power' rand_time ds (Suc n)
                         tot_time' st'))
      else Inr st)"
  by pat_completeness auto
termination
  by (relation "measure (\<lambda>(a, sp, peak, pw, rand_time, ds, n, tot_time, st).
                  nat (rand_time + 1 - tot_time))")
     (auto simp: Let_def)

declare switch_on_loop.simps [simp del]

subsubsection \<open>The daily profile of one appliance\<close>

datatype day_arg =
    DayInt int           \<comment> \<open>one day type\<close>
  | DayList "int list"   \<comment> \<open>a Python list of day types (a numpy array is not modelled)\<close>

definition in_day_types :: "int \<Rightarrow> day_arg \<Rightarrow> bool" where
  \<comment> \<open>\<^verbatim>\<open>self.wd_we_type in [day_type, 2]\<close>: an integer never equals a list.\<close>
  "in_day_types wd day_type = (case day_type of DayInt d \<Rightarrow> wd = d \<or> wd = 2 | DayList ds \<Rightarrow> wd = 2)"

definition np_index :: "'a list \<Rightarrow> int \<Rightarrow> error + 'a" where
  \<comment> \<open>\<^verbatim>\<open>xs[i]\<close>: the indices \<open>-len .. -1\<close> count from the end.\<close>
  "np_index xs i =
     (if 0 \<le> i \<and> i < int (length xs) then Inr (xs ! nat i)
      else if - int (length xs) \<le> i \<and> i < 0 then Inr (xs ! nat (i + int (length xs)))
      else Inl IndexError)"

definition fill_windows :: "real list \<Rightarrow> window list \<Rightarrow> real \<Rightarrow> error + real list" where
  \<comment> \<open>\<^verbatim>\<open>for rand_window in rand_windows: self.daily_use[...] = np.full(..., v)\<close>\<close>
  "fill_windows du rand_windows v =
     fold (\<lambda>w acc. ebind acc (\<lambda>d. slice_fill d w v)) rand_windows (Inr du)"

definition skipped :: "appliance \<Rightarrow> int \<Rightarrow> day_arg \<Rightarrow> day_draws \<Rightarrow> error + bool" where
  \<comment> \<open>The eligibility test at the head of \<^verbatim>\<open>generate_load_profile\<close>: whether the
      appliance is skipped today.\<close>
  "skipped a user_preference day_type d =
     ebind (if user_preference = 0 then Inr 0 else randint 1 user_preference (preference_k d))
       (\<lambda>rand_daily_pref. Inr
          (occasional_use a < uniform 0 1 (occasional_x d)
           \<or> (pref_index a \<noteq> 0 \<and> rand_daily_pref \<noteq> pref_index a)
           \<or> \<not> in_day_types (wd_we_type a) day_type))"

definition rand_windows_of :: "appliance \<Rightarrow> day_draws \<Rightarrow> error + window list" where
  \<comment> \<open>\<^verbatim>\<open>rand_windows = [rand_window_1, rand_window_2, rand_window_3]\<close>\<close>
  "rand_windows_of a d =
     ebind (calc_rand_window a 1 (fst (window_k d 1)) (snd (window_k d 1))) (\<lambda>rw1.
     ebind (calc_rand_window a 2 (fst (window_k d 2)) (snd (window_k d 2))) (\<lambda>rw2.
     ebind (calc_rand_window a 3 (fst (window_k d 3)) (snd (window_k d 3))) (\<lambda>rw3.
       Inr [rw1, rw2, rw3])))"

definition generate_load_profile_run ::
  "appliance \<Rightarrow> int \<Rightarrow> int \<Rightarrow> int list \<Rightarrow> day_arg \<Rightarrow> real \<Rightarrow> switch_on_parameters \<Rightarrow> day_draws
     \<Rightarrow> error + appliance \<times> int list list" where
  \<comment> \<open>\<^verbatim>\<open>generate_load_profile(prof_i, peak_time_range, day_type, power)\<close> of an appliance
      whose user has the given \<^verbatim>\<open>user_preference\<close>: the appliance as the call leaves
      it, and the history of the index vectors written.\<close>
  "generate_load_profile_run a user_preference prof_i peak_time_range day_type power' sp d =
     (let a0 = a\<lparr>daily_use := Some (replicate 1440 0)\<rparr>
      in ebind (skipped a0 user_preference day_type d) (\<lambda>skip.
           if skip then Inr (a0, [])
           else
             ebind (rand_windows_of a0 d) (\<lambda>rand_windows.
             ebind (rand_total_time_of_use a0 (rand_windows ! 0) (rand_windows ! 1)
                      (rand_windows ! 2) (time_var_x d) (time_x d)) (\<lambda>rand_time.
               if flat a0 = ''yes'' then
                 ebind (np_index (power_series a0) prof_i) (\<lambda>p.
                 ebind (fill_windows (replicate 1440 0) rand_windows
                          (p * real_of_int (number a0))) (\<lambda>du.
                   Inr (a0\<lparr>daily_use := Some du\<rparr>, [])))
               else
                 ebind (fill_windows (replicate 1440 0) rand_windows 0.001) (\<lambda>du.
                   let a1 = assign_random_cycles (a0\<lparr>daily_use := Some du\<rparr>) d;
                       spots = filter (\<lambda>rw. fst rw \<noteq> snd rw) rand_windows
                   in ebind (switch_on_loop a1 sp peak_time_range power' rand_time (step d) 0 0
                               \<lparr>ls_daily_use = du, ls_free_spots = spots, ls_events = []\<rparr>)
                        (\<lambda>st. Inr (a1\<lparr>daily_use := Some (ls_daily_use st),
                                      free_spots := Some (ls_free_spots st)\<rparr>,
                                   ls_events st)))))))"

definition generate_load_profile ::
  "appliance \<Rightarrow> int \<Rightarrow> int \<Rightarrow> int list \<Rightarrow> day_arg \<Rightarrow> real \<Rightarrow> switch_on_parameters \<Rightarrow> day_draws
     \<Rightarrow> error + appliance" where
  "generate_load_profile a user_preference prof_i peak_time_range day_type power' sp d =
     ebind (generate_load_profile_run a user_preference prof_i peak_time_range day_type power' sp d)
       (\<lambda>r. Inr (fst r))"

subsection \<open>User\<close>

record user =
  num_users :: int
  user_preference :: int
  App_list :: "appliance list"

fun stack_maximum_profiles :: "appliance list \<Rightarrow> real list list \<Rightarrow> error + real list list" where
  \<comment> \<open>The loop of \<^verbatim>\<open>User.maximum_profile\<close>: \<^verbatim>\<open>np.vstack\<close> adds a row, and needs
      rows of one length.\<close>
  "stack_maximum_profiles [] rows = Inr rows"
| "stack_maximum_profiles (a # as) rows =
     ebind (maximum_profile a) (\<lambda>app_max_profile.
       if length app_max_profile \<noteq> 1440 then Inl NumpyValueError
       else stack_maximum_profiles as (rows @ [app_max_profile]))"

definition user_maximum_profile :: "user \<Rightarrow> error + real list" where
  \<comment> \<open>\<^verbatim>\<open>User.maximum_profile\<close>: the sum of the stacked rows, times \<^verbatim>\<open>num_users\<close>.
      (With no appliance numpy returns the scalar 0.0, which broadcasts as the zero
      vector does in the one place the value is used.)\<close>
  "user_maximum_profile u =
     ebind (stack_maximum_profiles (App_list u) [replicate 1440 0]) (\<lambda>rows.
       Inr (map (\<lambda>x. x * real_of_int (num_users u))
              (fold (\<lambda>row acc. vadd acc row) (tl rows) (hd rows))))"

fun single_load_loop ::
  "int \<Rightarrow> int \<Rightarrow> int list \<Rightarrow> day_arg \<Rightarrow> switch_on_parameters \<Rightarrow> (nat \<Rightarrow> day_draws) \<Rightarrow> nat
     \<Rightarrow> appliance list \<Rightarrow> real list \<Rightarrow> error + real list" where
  \<comment> \<open>\<^verbatim>\<open>for App in self.App_list\<close> of \<^verbatim>\<open>generate_single_load_profile\<close>; the
      appliance at position \<open>i\<close> draws \<open>draws i\<close>.\<close>
  "single_load_loop up prof_i peak day_type sp draws i [] single_load = Inr single_load"
| "single_load_loop up prof_i peak day_type sp draws i (a # as) single_load =
     ebind (np_index (power_series a) prof_i) (\<lambda>p.
     ebind (generate_load_profile a up prof_i peak day_type p sp (draws i)) (\<lambda>a'.
       case daily_use a' of
         None \<Rightarrow> Inl TypeError
       | Some du \<Rightarrow>
           single_load_loop up prof_i peak day_type sp draws (Suc i) as (vadd single_load du)))"

definition generate_single_load_profile ::
  "user \<Rightarrow> int \<Rightarrow> int list \<Rightarrow> day_arg \<Rightarrow> switch_on_parameters \<Rightarrow> (nat \<Rightarrow> day_draws)
     \<Rightarrow> error + real list" where
  "generate_single_load_profile u prof_i peak_time_range day_type sp draws =
     (if \<not> (0 \<le> prof_i \<and> prof_i < 365) then Inl InvalidDayIndex
      else single_load_loop (user_preference u) prof_i peak_time_range day_type sp draws 0
             (App_list u) (replicate 1440 0))"

fun aggregated_load_loop ::
  "user \<Rightarrow> int \<Rightarrow> int list \<Rightarrow> day_arg \<Rightarrow> switch_on_parameters \<Rightarrow> (nat \<Rightarrow> nat \<Rightarrow> day_draws)
     \<Rightarrow> nat list \<Rightarrow> real list \<Rightarrow> error + real list" where
  \<comment> \<open>\<^verbatim>\<open>for _ in range(self.num_users)\<close>; member \<open>m\<close> draws \<open>draws m\<close>.\<close>
  "aggregated_load_loop u prof_i peak day_type sp draws [] load = Inr load"
| "aggregated_load_loop u prof_i peak day_type sp draws (m # ms) load =
     ebind (generate_single_load_profile u prof_i peak day_type sp (draws m)) (\<lambda>single.
       aggregated_load_loop u prof_i peak day_type sp draws ms (vadd load single))"

definition generate_aggregated_load_profile ::
  "user \<Rightarrow> int \<Rightarrow> int list \<Rightarrow> day_arg \<Rightarrow> switch_on_parameters \<Rightarrow> (nat \<Rightarrow> nat \<Rightarrow> day_draws)
     \<Rightarrow> error + real list" where
  \<comment> \<open>The value of \<^verbatim>\<open>self.load\<close> the call returns.\<close>
  "generate_aggregated_load_profile u prof_i peak_time_range day_type sp draws =
     (if \<not> (0 \<le> prof_i \<and> prof_i < 365) then Inl InvalidDayIndex
      else aggregated_load_loop u prof_i peak_time_range day_type sp draws
             [0..<nat (num_users u)] (replicate 1440 0))"

subsection \<open>UseCase\<close>

text \<open>
  A use case is the list of its users. In both modes the appliance at position \<open>j\<close> of
  the user at position \<open>i\<close> draws, for its copy \<open>m\<close> on day \<open>d\<close>, the raw draws
  \<open>draws d i m j\<close>: a task of the parallel mode and the matching call of the sequential
  mode see the same draws, so that the two modes can be compared value by value.
\<close>

fun usecase_load_loop ::
  "int \<Rightarrow> int list \<Rightarrow> day_arg \<Rightarrow> switch_on_parameters \<Rightarrow> (nat \<Rightarrow> nat \<Rightarrow> nat \<Rightarrow> day_draws) \<Rightarrow> nat
     \<Rightarrow> user list \<Rightarrow> real list \<Rightarrow> error + real list" where
  \<comment> \<open>\<^verbatim>\<open>for user in self.users\<close> of \<^verbatim>\<open>generate_daily_load_profiles\<close>\<close>
  "usecase_load_loop prof_i peak day_types sp draws i [] usecase_load = Inr usecase_load"
| "usecase_load_loop prof_i peak day_types sp draws i (u # us) usecase_load =
     ebind (generate_aggregated_load_profile u prof_i peak day_types sp (draws i)) (\<lambda>load.
       usecase_load_loop prof_i peak day_types sp draws (Suc i) us (vadd usecase_load load))"

fun daily_profiles_loop ::
  "user list \<Rightarrow> int list \<Rightarrow> day_arg \<Rightarrow> switch_on_parameters
     \<Rightarrow> (nat \<Rightarrow> nat \<Rightarrow> nat \<Rightarrow> nat \<Rightarrow> day_draws) \<Rightarrow> nat list \<Rightarrow> real list list
     \<Rightarrow> error + real list list" where
  \<comment> \<open>\<^verbatim>\<open>for prof_i in range(num_profiles)\<close>\<close>
  "daily_profiles_loop users peak day_types sp draws [] profiles = Inr profiles"
| "daily_profiles_loop users peak day_types sp draws (prof_i # days) profiles =
     ebind (usecase_load_loop (int prof_i) peak day_types sp (draws prof_i) 0 users
              (replicate 1440 0)) (\<lambda>usecase_load.
       daily_profiles_loop users peak day_types sp draws days (profiles @ [usecase_load]))"

definition generate_daily_load_profiles ::
  "user list \<Rightarrow> int \<Rightarrow> int list \<Rightarrow> day_arg \<Rightarrow> switch_on_parameters
     \<Rightarrow> (nat \<Rightarrow> nat \<Rightarrow> nat \<Rightarrow> nat \<Rightarrow> day_draws) \<Rightarrow> error + real list list" where
  \<comment> \<open>Sequential mode: \<^verbatim>\<open>day_types\<close> is handed on as it is.\<close>
  "generate_daily_load_profiles users num_profiles peak_time_range day_types sp draws =
     daily_profiles_loop users peak_time_range day_types sp draws [0..<nat num_profiles] []"

definition single_appliance_daily_load_profile ::
  "appliance \<Rightarrow> int \<Rightarrow> int \<Rightarrow> int list \<Rightarrow> int \<Rightarrow> switch_on_parameters \<Rightarrow> day_draws
     \<Rightarrow> error + int \<times> real list" where
  \<comment> \<open>The task of the parallel mode, for an appliance whose user has the given
      \<^verbatim>\<open>user_preference\<close>.\<close>
  "single_appliance_daily_load_profile app up day_id peak_time_range day_type sp d =
     ebind (np_index (power_series app) day_id) (\<lambda>p.
     ebind (generate_load_profile app up day_id peak_time_range (DayInt day_type) p sp d) (\<lambda>app'.
       case daily_use app' of None \<Rightarrow> Inl TypeError | Some du \<Rightarrow> Inr (day_id, du)))"

definition day_tasks ::
  "user list \<Rightarrow> nat \<Rightarrow> (appliance \<times> int \<times> nat \<times> nat \<times> nat) list" where
  \<comment> \<open>The tasks of one day, in the order of the three inner loops: the appliance, its
      user's preference, and the positions \<open>(user, copy, appliance)\<close> that select the
      draws.\<close>
  "day_tasks users day_id =
     concat (map (\<lambda>i. let u = users ! i in
       concat (map (\<lambda>j.
         map (\<lambda>m. (App_list u ! j, user_preference u, i, m, j)) [0..<nat (num_users u)])
         [0..<length (App_list u)]))
       [0..<length users])"

fun run_tasks ::
  "int list \<Rightarrow> int \<Rightarrow> switch_on_parameters \<Rightarrow> (nat \<Rightarrow> nat \<Rightarrow> nat \<Rightarrow> day_draws) \<Rightarrow> nat
     \<Rightarrow> (appliance \<times> int \<times> nat \<times> nat \<times> nat) list \<Rightarrow> error + real list list" where
  \<comment> \<open>The results of one day's tasks, which the source collects under the key
      \<^verbatim>\<open>day_id\<close>.\<close>
  "run_tasks peak day_type sp draws day_id [] = Inr []"
| "run_tasks peak day_type sp draws day_id ((app, up, i, m, j) # ts) =
     ebind (single_appliance_daily_load_profile app up (int day_id) peak day_type sp (draws i m j))
       (\<lambda>r. ebind (run_tasks peak day_type sp draws day_id ts) (\<lambda>rs. Inr (snd r # rs)))"

definition day_type_at :: "day_arg \<Rightarrow> nat \<Rightarrow> error + int" where
  \<comment> \<open>\<^verbatim>\<open>day_types[day_id]\<close>\<close>
  "day_type_at day_types day_id =
     (case day_types of DayInt d \<Rightarrow> Inl TypeError | DayList ds \<Rightarrow> np_index ds (int day_id))"

fun task_day_types :: "day_arg \<Rightarrow> nat list \<Rightarrow> error + (nat \<times> int) list" where
  \<comment> \<open>The loop that builds the task list: \<^verbatim>\<open>day_types\<close> is indexed for every day
      before any task runs.\<close>
  "task_day_types day_types [] = Inr []"
| "task_day_types day_types (day_id # days) =
     ebind (day_type_at day_types day_id) (\<lambda>day_type.
     ebind (task_day_types day_types days) (\<lambda>rest. Inr ((day_id, day_type) # rest)))"

fun run_days ::
  "user list \<Rightarrow> int list \<Rightarrow> switch_on_parameters \<Rightarrow> (nat \<Rightarrow> nat \<Rightarrow> nat \<Rightarrow> nat \<Rightarrow> day_draws)
     \<Rightarrow> (nat \<times> int) list \<Rightarrow> error + real list list list" where
  \<comment> \<open>The pool: the tasks of every day run, and \<^verbatim>\<open>daily_profiles_dict\<close> collects the
      rows of each day.\<close>
  "run_days users peak sp draws [] = Inr []"
| "run_days users peak sp draws ((day_id, day_type) # days) =
     ebind (run_tasks peak day_type sp (draws day_id) day_id (day_tasks users day_id)) (\<lambda>rows.
     ebind (run_days users peak sp draws days) (\<lambda>rest. Inr (rows # rest)))"

fun sum_days :: "real list list list \<Rightarrow> error + real list list" where
  \<comment> \<open>\<^verbatim>\<open>np.vstack(daily_profiles_dict[day_id]).sum(axis=0)\<close>, day by day; a day
      that had no task has no entry in the dictionary.\<close>
  "sum_days [] = Inr []"
| "sum_days (rows # days) =
     (if rows = [] then Inl KeyError
      else ebind (sum_days days) (\<lambda>rest.
             Inr (fold (\<lambda>row acc. vadd acc row) (tl rows) (hd rows) # rest)))"

definition generate_daily_load_profiles_parallel ::
  "user list \<Rightarrow> int \<Rightarrow> int list \<Rightarrow> day_arg \<Rightarrow> switch_on_parameters
     \<Rightarrow> (nat \<Rightarrow> nat \<Rightarrow> nat \<Rightarrow> nat \<Rightarrow> day_draws) \<Rightarrow> error + real list list" where
  \<comment> \<open>Parallel mode, as a function of its arguments and of the draws of its tasks: the
      task list is built, the tasks run, and the rows of each day are summed into
      \<^verbatim>\<open>np.zeros((num_profiles, 1440))\<close>, which numpy refuses to build for a negative
      \<^verbatim>\<open>num_profiles\<close>. Which exception comes first when several tasks fail is not
      modelled.\<close>
  "generate_daily_load_profiles_parallel users num_profiles peak_time_range day_types sp draws =
     ebind (task_day_types day_types [0..<nat num_profiles]) (\<lambda>days.
     ebind (run_days users peak_time_range sp draws days) (\<lambda>rows.
       if num_profiles < 0 then Inl NumpyValueError else sum_days rows))"

subsection \<open>Peak time range\<close>

fun total_maximum_profile :: "user list \<Rightarrow> real list \<Rightarrow> error + real list" where
  \<comment> \<open>\<^verbatim>\<open>for user in user_list: tot_max_profile = tot_max_profile + user.maximum_profile\<close>\<close>
  "total_maximum_profile [] tot = Inr tot"
| "total_maximum_profile (u # us) tot =
     ebind (user_maximum_profile u) (\<lambda>m. total_maximum_profile us (vadd tot m))"

definition argwhere_max :: "real list \<Rightarrow> nat list" where
  \<comment> \<open>\<^verbatim>\<open>np.argwhere(xs == np.amax(xs))\<close>, as the list of the indices\<close>
  "argwhere_max xs = filter (\<lambda>t. xs ! t = Max (set xs)) [0..<length xs]"

definition calc_peak_time_range :: "user list \<Rightarrow> real \<Rightarrow> real \<Rightarrow> real \<Rightarrow> error + int list" where
  \<comment> \<open>\<open>z1\<close> and \<open>z2\<close> are the deviates of the two Gaussian draws. \<^verbatim>\<open>np.squeeze\<close>
      turns a single index into an array of no dimension, which cannot be indexed.\<close>
  "calc_peak_time_range user_list peak_enlarge z1 z2 =
     ebind (total_maximum_profile user_list (replicate 1440 0)) (\<lambda>tot_max_profile.
       let peak_window = argwhere_max tot_max_profile
       in if length peak_window = 1 then Inl IndexError
          else
            let peak_time = py_round (gauss
                  (real_of_int (py_round (mean (map real peak_window))))
                  (1 / 3 * (real (last peak_window) - real (hd peak_window))) z1);
                rand_peak_enlarge = py_round
                  \<bar>real_of_int peak_time
                     - gauss (real_of_int peak_time) (peak_enlarge * real_of_int peak_time) z2\<bar>
            in Inr (arange (peak_time - rand_peak_enlarge) (peak_time + rand_peak_enlarge)))"

subsection \<open>A small use case\<close>

definition example_appliance ::
  "string \<Rightarrow> int \<Rightarrow> int \<Rightarrow> int \<Rightarrow> window \<Rightarrow> error + appliance" where
  \<comment> \<open>The appliance of the spec's scenario S1, by the calls a model file makes: two
      copies of 100 W and one window; the flag \<^verbatim>\<open>flat\<close>, the time of use, the minimal
      cycle, the day type and the window are left open.\<close>
  "example_appliance flat' func_time' func_cycle' wd_we_type' w =
     ebind (Appliance_init 2 (PowerNumber 100) 1 func_time' 0 func_cycle' ''no'' 0 1 flat' 0 0
              wd_we_type')
       (\<lambda>a. windows a (Some w) None 0 None)"

definition example_user :: "string \<Rightarrow> int \<Rightarrow> int \<Rightarrow> window \<Rightarrow> user" where
  \<comment> \<open>One user category of one member, who owns the example appliance (with a minimal
      cycle of one minute) and has no preference.\<close>
  "example_user flat' func_time' wd_we_type' w =
     \<lparr>num_users = 1, user_preference = 0,
      App_list = [projr (example_appliance flat' func_time' 1 wd_we_type' w)]\<rparr>"

definition example_parameters :: switch_on_parameters where
  \<comment> \<open>Some values for the constants.\<close>
  "example_parameters = \<lparr>s_peak = 1 / 2, mu_peak = 1 / 2, op_factor = 1 / 2\<rparr>"

definition example_draws :: day_draws where
  \<comment> \<open>The draws that are all zero (and duty cycles of one sample).\<close>
  "example_draws =
     \<lparr>preference_k = 0, occasional_x = 0, window_k = (\<lambda>i. (0, 0)), time_var_x = 0, time_x = 0,
      duty_cycle_1 = [1], duty_cycle_2 = [1],
      random_choice_1 = [1], random_choice_2 = [1], random_choice_3 = [1],
      step = (\<lambda>n. \<lparr>choice_k = 0, duration_x = 0, coincidence_z = 0, coincidence_x = 0,
                    thermal_x = 0\<rparr>)\<rparr>"

definition seasonal_appliance :: "error + appliance" where
  \<comment> \<open>An appliance whose power is a table of 365 rows: 50 W on the first hundred days
      of the year and 100 W afterwards; two copies, not flat, the window \<open>[480, 483)\<close>,
      two minutes of use in cycles of at least one minute.\<close>
  "seasonal_appliance =
     ebind (Appliance_init 2 (PowerDataFrame [replicate 100 50 @ replicate 265 100]) 1 2 0 1
              ''no'' 0 1 ''no'' 0 0 2)
       (\<lambda>a. windows a (Some (480, 483)) None 0 None)"

definition seasonal_user :: user where
  \<comment> \<open>One user category of one member, who owns the seasonal appliance.\<close>
  "seasonal_user =
     \<lparr>num_users = 1, user_preference = 0, App_list = [projr seasonal_appliance]\<rparr>"

section \<open>Properties\<close>

lemma example_appliance_eq:
  "example_appliance fl 120 fc wd (480, 600) =
     Inr \<lparr>number = 2, power_series = replicate 366 100, num_windows = 1,
          func_time = 120, time_fraction_random_variability = 0,
          func_cycle = fc, fixed = ''no'', fixed_cycle = 0,
          occasional_use = 1, flat = fl, thermal_p_var = 0,
          pref_index = 0, wd_we_type = wd, random_var_w = 0,
          window_1 = (480, 600), window_2 = (0, 0), window_3 = (0, 0),
          random_var_1 = 0, random_var_2 = 0, random_var_3 = 0,
          daily_use = Some (replicate 480 0 @ replicate 120 (1 / 1000) @ replicate 840 0),
          free_spots = None, cw11 = (0, 0), cw12 = (0, 0), cw21 = (0, 0),
          cw22 = (0, 0), cw31 = (0, 0), cw32 = (0, 0), random_cycle1 = [],
          random_cycle2 = [], random_cycle3 = []\<rparr>"
  by (simp add: example_appliance_def Appliance_init_def Appliance_init_power_def ebind_def
      windows_def window_time_def np_diff_def slice_fill_def slice_index_def py_int_def Let_def)

lemma length_arange: "length (arange a b) = nat (b - a)"
  by (simp add: arange_def)

text \<open>
  C7. For every appliance with \<open>number \<ge> 1\<close> (and so in particular when also
  \<open>op_factor \<le> number\<close>), \<open>calc_coincident_switch_on\<close> returns \<open>number\<close> when
  \<open>fixed = 'yes'\<close>, whether or not the event is inside the peak; in every case, inside
  the peak or off-peak, the result is an integer of \<open>[1, number]\<close>; and for
  \<open>number = 1\<close> both branches return 1.
\<close>

theorem calc_coincident_switch_on_range:
  assumes "1 \<le> number a"
  shows "\<exists>c. calc_coincident_switch_on a inside sp z x = Inr c
           \<and> (fixed a = ''yes'' \<longrightarrow> c = number a)
           \<and> 1 \<le> c \<and> c \<le> number a
           \<and> (number a = 1 \<longrightarrow> c = 1)"
proof -
  have off_peak: "1 \<le> (if sel = [] then 1 else int (Max (set sel)) + 1)
                \<and> (if sel = [] then 1 else int (Max (set sel)) + 1) \<le> number a"
    if sel: "set sel \<subseteq> {0..<nat (number a)}" for sel :: "nat list"
  proof (cases "sel = []")
    case True
    with assms show ?thesis by simp
  next
    case False
    then have "Max (set sel) \<in> set sel" by (intro Max_in) auto
    with sel have "Max (set sel) < nat (number a)" by auto
    with assms have "int (Max (set sel)) + 1 \<le> number a" by linarith
    with False show ?thesis by simp
  qed
  show ?thesis
  proof (cases "fixed a = ''no''")
    case no: True
    show ?thesis
    proof (cases inside)
      case True
      with no assms show ?thesis by (simp add: calc_coincident_switch_on_def)
    next
      case False
      let ?array = "map (\<lambda>i. real_of_int i / real_of_int (number a)) (arange 0 (number a))"
      let ?prob = "uniform 0 ((real_of_int (number a) - op_factor sp) / real_of_int (number a)) x"
      let ?sel = "filter (\<lambda>i. ?array ! i \<le> ?prob) [0..<length ?array]"
      let ?c = "if ?sel = [] then 1 else int (Max (set ?sel)) + 1"
      have "set ?sel \<subseteq> {0..<nat (number a)}"
        by (auto simp: length_arange)
      from off_peak [OF this] have c: "1 \<le> ?c" "?c \<le> number a" by simp_all
      from False no assms have "calc_coincident_switch_on a inside sp z x = Inr ?c"
        by (simp add: calc_coincident_switch_on_def Let_def)
      with c no show ?thesis by auto
    qed
  next
    case False
    with assms show ?thesis by (simp add: calc_coincident_switch_on_def)
  qed
qed

theorem calc_coincident_switch_on_range_witness:
  "fixed (projr (Appliance_init 1 (PowerNumber 100) 1 120 0 1 ''yes'' 0 1 ''no'' 0 0 2)) = ''yes''
   \<and> number (projr (Appliance_init 1 (PowerNumber 100) 1 120 0 1 ''yes'' 0 1 ''no'' 0 0 2)) = 1
   \<and> calc_coincident_switch_on
        (projr (Appliance_init 1 (PowerNumber 100) 1 120 0 1 ''yes'' 0 1 ''no'' 0 0 2))
        False \<lparr>s_peak = 1 / 2, mu_peak = 1 / 2, op_factor = 1 / 2\<rparr> 0 0 = Inr 1"
  using calc_coincident_switch_on_range
    [of "projr (Appliance_init 1 (PowerNumber 100) 1 120 0 1 ''yes'' 0 1 ''no'' 0 0 2)"
        False "\<lparr>s_peak = 1 / 2, mu_peak = 1 / 2, op_factor = 1 / 2\<rparr>" 0 0]
  by (auto simp: Appliance_init_def Appliance_init_power_def ebind_def)

subsection \<open>The theoretical maximum of an appliance\<close>

text \<open>
  C1. The claim: once \<open>windows\<close> has run, \<open>maximum_profile\<close> is \<open>mean(power) * number\<close>
  at every minute of a configured window and zero elsewhere. The code multiplies the
  mask that \<open>windows\<close> leaves in \<open>daily_use\<close>, whose value inside the windows is 0.001,
  so that the profile is a thousandth of what the docstring of \<open>maximum_profile\<close>
  announces. For two copies of 100 W and the window \<open>[480, 600)\<close> the value inside the
  window is 0.2, not 200.
\<close>

theorem maximum_profile_example:
  "ebind (example_appliance ''no'' 120 1 2 (480, 600)) maximum_profile
     = Inr (replicate 480 0 @ replicate 120 (1 / 5) @ replicate 840 0)
   \<and> mean (replicate 366 100) * real_of_int 2 = 200"
  by (simp add: example_appliance_eq ebind_def maximum_profile_def mean_def sum_list_replicate)

subsection \<open>The power series of a new appliance\<close>

text \<open>
  C2, as the claim states it, fails: a table of 366 rows and a sequence of 366 numbers
  are both refused, and the table that is accepted has 365 rows, which is then the
  length of the stored series.
\<close>

theorem Appliance_init_power_counterexample:
  "map_sum id power_series
     (Appliance_init 1 (PowerSequence (replicate 366 5)) 1 0 0 1 ''no'' 0 1 ''no'' 0 0 2)
     = Inl WrongPowerType
   \<and> map_sum id power_series
     (Appliance_init 1 (PowerDataFrame [replicate 366 5]) 1 0 0 1 ''no'' 0 1 ''no'' 0 0 2)
     = Inl WrongPowerSize
   \<and> map_sum id (\<lambda>a. length (power_series a))
     (Appliance_init 1 (PowerDataFrame [replicate 365 5]) 1 0 0 1 ''no'' 0 1 ''no'' 0 0 2)
     = Inr 365"
  by (simp add: Appliance_init_def Appliance_init_power_def ebind_def frame_shape_def
      first_column_def)

text \<open>
  C2, amended. The constructor accepts a number, which it broadcasts to 366 days; a
  table of exactly one column and 365 rows, whose column it stores; and a string, of
  which it stores the first column of the table pandas reads from it, whatever its
  length. Every other table is refused for its size and every other value (a list or
  an array of any length) for its type. The stored series has 366 entries after a number
  and 365 after a table.
\<close>

theorem Appliance_init_power_cases:
  "map_sum id power_series
     (Appliance_init n p nw ft tv fc fx fxc ou fl tp pidx wd)
   = (case p of
        PowerNumber x \<Rightarrow> Inr (replicate 366 x)
      | PowerDataFrame cols \<Rightarrow>
          (if length cols = 1 \<and> length (hd cols) = 365 then Inr (hd cols)
           else Inl WrongPowerSize)
      | PowerString None \<Rightarrow> Inl JsonError
      | PowerString (Some []) \<Rightarrow> Inl IndexError
      | PowerString (Some (c # cs)) \<Rightarrow> Inr c
      | PowerSequence xs \<Rightarrow> Inl WrongPowerType)
   \<and> length (replicate 366 (x :: real)) = 366"
  by (auto simp: Appliance_init_def Appliance_init_power_def ebind_def frame_shape_def
      first_column_def split: power_arg.splits list.splits option.splits)

subsection \<open>Facts about the primitives\<close>

lemma arange_Nil: "arange a b = [] \<longleftrightarrow> b \<le> a"
  by (auto simp: arange_def)

lemma hd_arange: "a < b \<Longrightarrow> hd (arange a b) = a"
  by (simp add: arange_def upto_rec1)

lemma last_arange: "a < b \<Longrightarrow> last (arange a b) = b - 1"
  by (simp add: arange_def upto_rec2)

lemma set_arange: "set (arange a b) = {a..<b}"
  by (auto simp: arange_def)

lemma nth_arange: "k < nat (b - a) \<Longrightarrow> arange a b ! k = a + int k"
  by (simp add: arange_def)

lemma py_round_of_int: "py_round (of_int n) = n"
  by (simp add: py_round_def Let_def)

lemma py_round_numeral: "py_round (numeral n) = numeral n"
  using py_round_of_int [of "numeral n"] by simp

lemma frac_not_above_1: "\<not> 1 < frac (x :: real)"
  using frac_lt_1 [of x] by simp

lemma vadd_zeros: "length xs = n \<Longrightarrow> vadd (replicate n 0) xs = xs"
  by (rule nth_equalityI) (simp_all add: vadd_def)

lemma filter_eq_upt: "m < n \<Longrightarrow> filter (\<lambda>t. t = m) [0..<n] = [m]"
  by (induction n) (auto simp: less_Suc_eq)

lemma argwhere_max_single:
  assumes "0 < v"
  shows "argwhere_max (replicate m 0 @ v # replicate n 0) = [m]"
proof -
  let ?xs = "replicate m 0 @ v # replicate n 0"
  have set: "set ?xs \<subseteq> {0, v}" "v \<in> set ?xs" by auto
  have "Max (set ?xs) = v"
  proof (rule Max_eqI)
    show "finite (set ?xs)" by simp
    show "y \<le> v" if "y \<in> set ?xs" for y using that set(1) assms by auto
    show "v \<in> set ?xs" by simp
  qed
  moreover have "(?xs ! t = v) = (t = m)" if "t < length ?xs" for t
    using that assms by (auto simp: nth_append nth_Cons')
  ultimately have "argwhere_max ?xs = filter (\<lambda>t. t = m) [0..<length ?xs]"
    unfolding argwhere_max_def by (intro filter_cong) auto
  then show ?thesis by (simp add: filter_eq_upt)
qed

subsection \<open>The example appliance through the engine\<close>

lemma example_appliance_short_eq:
  "example_appliance fl 1 fc wd (480, 481) =
     Inr \<lparr>number = 2, power_series = replicate 366 100, num_windows = 1,
          func_time = 1, time_fraction_random_variability = 0,
          func_cycle = fc, fixed = ''no'', fixed_cycle = 0,
          occasional_use = 1, flat = fl, thermal_p_var = 0,
          pref_index = 0, wd_we_type = wd, random_var_w = 0,
          window_1 = (480, 481), window_2 = (0, 0), window_3 = (0, 0),
          random_var_1 = 0, random_var_2 = 0, random_var_3 = 0,
          daily_use = Some (replicate 480 0 @ [1 / 1000] @ replicate 959 0),
          free_spots = None, cw11 = (0, 0), cw12 = (0, 0), cw21 = (0, 0),
          cw22 = (0, 0), cw31 = (0, 0), cw32 = (0, 0), random_cycle1 = [],
          random_cycle2 = [], random_cycle3 = []\<rparr>"
  by (simp add: example_appliance_def Appliance_init_def Appliance_init_power_def ebind_def
      windows_def window_time_def np_diff_def slice_fill_def slice_index_def py_int_def Let_def)

lemma total_maximum_profile_example:
  "total_maximum_profile [example_user ''no'' 1 2 (480, 481)] (replicate 1440 0)
   = Inr (replicate 480 0 @ 1 / 5 # replicate 959 0)"
  by (simp add: example_user_def example_appliance_short_eq user_maximum_profile_def ebind_def
      maximum_profile_def mean_def sum_list_replicate vadd_zeros)

lemma generate_load_profile_flat_example:
  assumes "0 \<le> prof_i" "prof_i < 366"
  shows "generate_load_profile (projr (example_appliance ''yes'' 120 1 wd (480, 600))) 0 prof_i
           peak dt pw sp d
         = Inr ((projr (example_appliance ''yes'' 120 1 wd (480, 600)))
                 \<lparr>daily_use := Some (if in_day_types wd dt
                     then replicate 480 0 @ replicate 120 200 @ replicate 840 0
                     else replicate 1440 0)\<rparr>)"
  using assms
  by (simp add: example_appliance_eq generate_load_profile_def generate_load_profile_run_def
      skipped_def ebind_def uniform_def rand_windows_of_def calc_rand_window_def randint_def
      rand_total_time_of_use_def random_variation_def py_int_def np_index_def fill_windows_def
      slice_fill_def slice_index_def Let_def py_round_numeral frac_not_above_1)

lemma power_series_example:
  "power_series (projr (example_appliance fl 120 fc wd (480, 600))) = replicate 366 100"
  by (simp add: example_appliance_eq)

lemma sequential_example:
  "generate_daily_load_profiles [example_user ''yes'' 120 0 (480, 600)] 1 peak (DayList [0]) sp
     draws
   = Inr [replicate 1440 0]"
  by (simp add: generate_daily_load_profiles_def
      generate_aggregated_load_profile_def generate_single_load_profile_def example_user_def
      generate_load_profile_flat_example ebind_def np_index_def power_series_example
      in_day_types_def vadd_zeros)

lemma parallel_example:
  "generate_daily_load_profiles_parallel [example_user ''yes'' 120 0 (480, 600)] 1 peak
     (DayList [0]) sp draws
   = Inr [replicate 480 0 @ replicate 120 200 @ replicate 840 0]"
  by (simp add: generate_daily_load_profiles_parallel_def example_user_def
      generate_load_profile_flat_example ebind_def np_index_def power_series_example
      in_day_types_def day_type_at_def day_tasks_def
      single_appliance_daily_load_profile_def Let_def)

lemma sequential_scalar_example:
  "generate_daily_load_profiles [example_user ''yes'' 120 0 (480, 600)] 1 peak (DayInt 0) sp
     draws
   = Inr [replicate 480 0 @ replicate 120 200 @ replicate 840 0]"
  by (simp add: generate_daily_load_profiles_def
      generate_aggregated_load_profile_def generate_single_load_profile_def example_user_def
      generate_load_profile_flat_example ebind_def np_index_def power_series_example
      in_day_types_def vadd_zeros)

lemma parallel_scalar_example:
  "generate_daily_load_profiles_parallel [example_user ''yes'' 120 0 (480, 600)] 1 peak
     (DayInt 0) sp draws
   = Inl TypeError"
  by (simp add: generate_daily_load_profiles_parallel_def day_type_at_def ebind_def)

subsection \<open>The peak time range\<close>

text \<open>
  C3. The claim: \<open>calc_peak_time_range\<close> is total on every valid user list, and returns
  (a possibly empty range) also when the community maximum is attained at a single
  minute; an empty range then makes every switch-on off-peak. The code fails in both
  cases. A user whose one appliance has the one-minute window \<open>[480, 481)\<close> has its
  maximum at minute 480 only: \<^verbatim>\<open>np.squeeze\<close> returns an array of no dimension and
  \<^verbatim>\<open>peak_window[-1]\<close> raises IndexError, whatever the draws. And an empty range is not
  tolerated by the switch-on loop, which reads \<^verbatim>\<open>peak_time_range[0]\<close>.
\<close>

theorem calc_peak_time_range_single_minute:
  "calc_peak_time_range [example_user ''no'' 1 2 (480, 481)] peak_enlarge z1 z2 = Inl IndexError
   \<and> switch_on_event a sp [] pw sd indexes st = Inl IndexError"
  unfolding calc_peak_time_range_def total_maximum_profile_example
  by (simp add: ebind_def argwhere_max_single switch_on_event_def)

subsection \<open>Free spots\<close>

text \<open>
  C4. The claim: the free spots stay sorted and disjoint, their union is the initial
  union minus the chosen intervals, and an interval of length zero is never kept. The
  code compares \<^verbatim>\<open>indexes[-1]\<close>, the last minute of the event, with \<^verbatim>\<open>stop\<close>, the
  first minute after the spot. So an event that fills the spot \<open>[0, 10)\<close> leaves the
  empty spot \<open>[10, 10)\<close> in the list (the branch the comment ``the whole range should
  be removed'' stands at is never taken); and the one-minute event at minute 100 is
  taken to lie in the spot \<open>[0, 100)\<close> that ends there, so that the spot
  \<open>[100, 200)\<close> it was chosen from keeps minute 100.
\<close>

theorem update_available_time_keeps_empty_spot:
  "update_available_time_for_switch_on_events [(0, 10)] (arange 0 10) = Inr [(10, 10)]
   \<and> update_available_time_for_switch_on_events [(0, 100), (100, 200)] (arange 100 101)
       = Inr [(0, 100), (100, 200)]"
  by (simp add: update_available_time_for_switch_on_events_def arange_Nil hd_arange last_arange
      Let_def)

subsection \<open>Sequential and parallel mode\<close>

text \<open>
  C9. The claim: both modes apply the day type \<open>day_types[d]\<close> of day \<open>d\<close> and sum the
  same profiles. The parallel mode does; the sequential mode hands the whole sequence
  \<open>day_types\<close> to every appliance, where \<^verbatim>\<open>wd_we_type in [day_type, 2]\<close> compares an
  integer with a list. For one flat weekday-only appliance (two copies of 100 W, window
  \<open>[480, 600)\<close>), one profile and the day types \<open>[0]\<close>, and whatever the draws, the
  parallel mode returns 200 W over the window and the sequential mode the zero
  profile. Given the single day type 0 instead, the sequential mode returns the 200 W
  profile and the parallel mode fails on \<^verbatim>\<open>day_types[day_id]\<close>: neither on a list
  nor on a single day type do the two modes of this use case agree.
\<close>

theorem sequential_differs_from_parallel:
  "generate_daily_load_profiles [example_user ''yes'' 120 0 (480, 600)] 1 peak (DayList [0]) sp
     draws
   = Inr [replicate 1440 0]
   \<and> generate_daily_load_profiles_parallel [example_user ''yes'' 120 0 (480, 600)] 1 peak
       (DayList [0]) sp draws
     = Inr [replicate 480 0 @ replicate 120 200 @ replicate 840 0]
   \<and> generate_daily_load_profiles [example_user ''yes'' 120 0 (480, 600)] 1 peak (DayInt 0) sp
       draws
     = Inr [replicate 480 0 @ replicate 120 200 @ replicate 840 0]
   \<and> generate_daily_load_profiles_parallel [example_user ''yes'' 120 0 (480, 600)] 1 peak
       (DayInt 0) sp draws
     = Inl TypeError"
  by (simp only: sequential_example parallel_example sequential_scalar_example
      parallel_scalar_example)

subsection \<open>The error of the day-index check\<close>

text \<open>
  No function below the guard of \<open>generate_single_load_profile\<close> raises the error of
  the guard. (The statement about the day index follows the lemmas on the aggregation,
  further below.)
\<close>

lemma ebind_neq: "m \<noteq> Inl e \<Longrightarrow> (\<And>x. m = Inr x \<Longrightarrow> f x \<noteq> Inl e) \<Longrightarrow> ebind m f \<noteq> Inl e"
  by (cases m) (simp_all add: ebind_def)

lemma ebind_eq_Inl: "ebind m f = Inl e \<longleftrightarrow> m = Inl e \<or> (\<exists>x. m = Inr x \<and> f x = Inl e)"
  by (cases m) (simp_all add: ebind_def)

lemma randint_not_day: "randint a b k \<noteq> Inl InvalidDayIndex"
  by (simp add: randint_def)

lemma slice_fill_not_day: "slice_fill xs w v \<noteq> Inl InvalidDayIndex"
  by (simp add: slice_fill_def Let_def)

lemma fill_windows_not_day: "fill_windows du ws v \<noteq> Inl InvalidDayIndex"
proof -
  have "acc \<noteq> Inl InvalidDayIndex \<Longrightarrow>
        fold (\<lambda>w acc. ebind acc (\<lambda>d. slice_fill d w v)) ws acc \<noteq> Inl InvalidDayIndex" for acc
    by (induction ws arbitrary: acc) (simp_all add: ebind_neq slice_fill_not_day)
  then show ?thesis by (simp add: fill_windows_def)
qed

lemma put_from_not_day: "put_from j xs ind vs \<noteq> Inl InvalidDayIndex"
  by (induction ind arbitrary: j xs) (simp_all add: Let_def)

lemma np_put_not_day: "np_put xs ind vs \<noteq> Inl InvalidDayIndex"
  by (simp add: np_put_def put_from_not_day)

lemma np_index_not_day: "np_index xs i \<noteq> Inl InvalidDayIndex"
  by (simp add: np_index_def Let_def)

lemma update_available_not_day:
  "update_available_time_for_switch_on_events spots indexes \<noteq> Inl InvalidDayIndex"
  by (simp add: update_available_time_for_switch_on_events_def Let_def split: option.splits)

lemma rand_switch_on_window_not_day:
  "rand_switch_on_window spots fc rt k x \<noteq> Inl InvalidDayIndex"
  by (auto simp: rand_switch_on_window_def Let_def randint_def ebind_def split: option.splits)

lemma update_daily_use_not_day:
  "update_daily_use a c pw indexes x st \<noteq> Inl InvalidDayIndex"
  unfolding update_daily_use_def
  by (intro ebind_neq) (simp_all add: np_put_not_day update_available_not_day Let_def)

lemma calc_coincident_switch_on_not_day:
  "calc_coincident_switch_on a inside sp z x \<noteq> Inl InvalidDayIndex"
  by (simp add: calc_coincident_switch_on_def Let_def)

lemma switch_on_event_not_day:
  "switch_on_event a sp peak pw sd indexes st \<noteq> Inl InvalidDayIndex"
  by (simp add: switch_on_event_def Let_def ebind_eq_Inl calc_coincident_switch_on_not_day
      update_daily_use_not_day)

lemma switch_on_loop_not_day:
  "switch_on_loop a sp peak pw rt ds n tot st \<noteq> Inl InvalidDayIndex"
proof (induction a sp peak pw rt ds n tot st rule: switch_on_loop.induct)
  case (1 a sp peak pw rt ds n tot st)
  show ?case
    apply (subst switch_on_loop.simps)
    using 1
    by (auto simp: Let_def rand_switch_on_window_not_day switch_on_event_not_day
        split: sum.splits option.splits)
qed

lemma calc_rand_window_not_day: "calc_rand_window a i ks ke \<noteq> Inl InvalidDayIndex"
  by (simp add: calc_rand_window_def Let_def ebind_neq randint_not_day)

lemma rand_windows_of_not_day: "rand_windows_of a d \<noteq> Inl InvalidDayIndex"
  unfolding rand_windows_of_def
  by (intro ebind_neq) (simp_all add: calc_rand_window_not_day)

lemma rand_total_time_of_use_not_day:
  "rand_total_time_of_use a w1 w2 w3 xv xt \<noteq> Inl InvalidDayIndex"
  by (simp add: rand_total_time_of_use_def Let_def)

lemma skipped_not_day: "skipped a up dt d \<noteq> Inl InvalidDayIndex"
  by (simp add: skipped_def ebind_neq randint_not_day)

lemma generate_load_profile_run_not_day:
  "generate_load_profile_run a up prof_i peak dt pw sp d \<noteq> Inl InvalidDayIndex"
  unfolding generate_load_profile_run_def Let_def
  by (auto simp: ebind_eq_Inl skipped_not_day rand_windows_of_not_day
        rand_total_time_of_use_not_day np_index_not_day fill_windows_not_day
        switch_on_loop_not_day split: if_splits)

lemma generate_load_profile_not_day:
  "generate_load_profile a up prof_i peak dt pw sp d \<noteq> Inl InvalidDayIndex"
  by (simp add: generate_load_profile_def ebind_neq generate_load_profile_run_not_day)

lemma single_load_loop_not_day:
  "single_load_loop up prof_i peak dt sp draws i as acc \<noteq> Inl InvalidDayIndex"
  by (induction as arbitrary: i acc)
     (auto simp: ebind_eq_Inl np_index_not_day generate_load_profile_not_day
        split: option.splits)

lemma generate_single_load_profile_day:
  "generate_single_load_profile u d peak dt sp draws = Inl InvalidDayIndex
     \<longleftrightarrow> \<not> (0 \<le> d \<and> d < 365)"
  by (simp add: generate_single_load_profile_def single_load_loop_not_day)

lemma aggregated_load_loop_not_day:
  "0 \<le> d \<and> d < 365 \<Longrightarrow>
   aggregated_load_loop u d peak dt sp draws ms acc \<noteq> Inl InvalidDayIndex"
  by (induction ms arbitrary: acc) (auto simp: ebind_eq_Inl generate_single_load_profile_day)

subsection \<open>Choosing a switch-on interval\<close>

lemma indexes_choice_alt:
  "indexes_choice spots fc = concat (map (\<lambda>s. arange (fst s) (snd s - fc + 1)) spots)"
  unfolding indexes_choice_def
  by (rule arg_cong [where f = concat], rule map_cong) (auto simp: arange_def)

lemma set_indexes_choice:
  "set (indexes_choice spots fc) = {sw. \<exists>s\<in>set spots. fst s \<le> sw \<and> sw \<le> snd s - fc}"
proof -
  have "set (indexes_choice spots fc) = (\<Union>s\<in>set spots. {fst s..<snd s - fc + 1})"
    by (simp add: indexes_choice_alt set_arange)
  also have "\<dots> = {sw. \<exists>s\<in>set spots. fst s \<le> sw \<and> sw \<le> snd s - fc}"
    by (rule set_eqI) (simp add: Bex_def)
  finally show ?thesis .
qed

lemma indexes_choice_Nil:
  "indexes_choice spots fc = [] \<longleftrightarrow> (\<forall>s\<in>set spots. snd s - fst s < fc)"
proof -
  have "indexes_choice spots fc = [] \<longleftrightarrow> set (indexes_choice spots fc) = {}" by simp
  also have "\<dots> \<longleftrightarrow> (\<forall>s\<in>set spots. snd s - fst s < fc)"
  proof
    assume e: "set (indexes_choice spots fc) = {}"
    show "\<forall>s\<in>set spots. snd s - fst s < fc"
    proof (rule ballI, rule ccontr)
      fix s assume "s \<in> set spots" "\<not> snd s - fst s < fc"
      then have "fst s \<in> set (indexes_choice spots fc)"
        unfolding set_indexes_choice by force
      with e show False by simp
    qed
  next
    assume "\<forall>s\<in>set spots. snd s - fst s < fc"
    then show "set (indexes_choice spots fc) = {}"
      unfolding set_indexes_choice by force
  qed
  finally show ?thesis .
qed

lemma find_index_Some:
  "\<exists>x\<in>set xs. P x \<Longrightarrow> \<exists>i. find_index P xs = Some i \<and> i < length xs \<and> P (xs ! i)"
proof (induction xs)
  case Nil
  then show ?case by simp
next
  case (Cons a xs)
  show ?case
  proof (cases "P a")
    case True
    then show ?thesis by simp
  next
    case False
    with Cons.prems have "\<exists>x\<in>set xs. P x" by auto
    from Cons.IH [OF this] obtain i where "find_index P xs = Some i" "i < length xs" "P (xs ! i)"
      by blast
    with False show ?thesis by simp
  qed
qed

lemma py_int_uniform_bounds:
  assumes "fc < ld"
  shows "fc \<le> py_int (uniform (real_of_int fc) (real_of_int ld) x)"
    and "py_int (uniform (real_of_int fc) (real_of_int ld) x) \<le> ld"
proof -
  let ?u = "uniform (real_of_int fc) (real_of_int ld) x"
  have f: "0 \<le> frac x" "frac x < 1" by (simp_all add: frac_lt_1)
  have pos: "0 < real_of_int ld - real_of_int fc" using assms by simp
  have lo: "real_of_int fc \<le> ?u" unfolding uniform_def using f pos by simp
  have "(real_of_int ld - real_of_int fc) * frac x \<le> (real_of_int ld - real_of_int fc) * 1"
    using f pos by (intro mult_left_mono) simp_all
  then have hi: "?u \<le> real_of_int ld" unfolding uniform_def by simp
  show "fc \<le> py_int ?u" using lo unfolding py_int_def by (auto simp: le_floor_iff le_ceiling_iff intro: order_trans)
  show "py_int ?u \<le> ld" using hi unfolding py_int_def by (auto simp: floor_le_iff ceiling_le_iff intro: order_trans)
qed


lemma rand_switch_on_window_Some:
  fixes k :: nat and spots :: "spot list" and fc :: int
  assumes ne: "indexes_choice spots fc \<noteq> []"
  defines "sw \<equiv> indexes_choice spots fc ! (k mod length (indexes_choice spots fc))"
  shows "\<exists>i. i < length spots \<and> fst (spots ! i) \<le> sw \<and> sw \<le> snd (spots ! i) - fc
           \<and> rand_switch_on_window spots fc rt k x =
               (let ld = min rt (snd (spots ! i) - sw)
                in if fc < ld then
                     Inr (Some (arange sw
                       (sw + py_int (uniform (real_of_int fc) (real_of_int ld) x))))
                   else if ld = fc then Inr (Some (arange sw (sw + ld)))
                   else Inl FishyUpperLimit)"
proof -
  let ?c = "indexes_choice spots fc"
  from ne have n: "0 < length ?c" by simp
  then have r: "randint 0 (int (length ?c) - 1) k = Inr (int (k mod length ?c))"
    by (simp add: randint_def zmod_int)
  have "sw \<in> set ?c" unfolding sw_def using n by simp
  then have "\<exists>s\<in>set spots. fst s \<le> sw \<and> sw \<le> snd s - fc"
    by (simp add: set_indexes_choice)
  from find_index_Some [OF this] obtain i where
    i: "find_index (\<lambda>fs. fst fs \<le> sw \<and> sw \<le> snd fs - fc) spots = Some i"
       "i < length spots" "fst (spots ! i) \<le> sw" "sw \<le> snd (spots ! i) - fc"
    by blast
  have "rand_switch_on_window spots fc rt k x =
          (let ld = min rt (snd (spots ! i) - sw)
           in if fc < ld then
                Inr (Some (arange sw
                  (sw + py_int (uniform (real_of_int fc) (real_of_int ld) x))))
              else if ld = fc then Inr (Some (arange sw (sw + ld)))
              else Inl FishyUpperLimit)"
    using n r i(1) by (simp add: rand_switch_on_window_def Let_def ebind_def sw_def)
  with i show ?thesis by blast
qed

text \<open>
  C5, as the claim states it, fails when \<open>rand_time < func_cycle\<close>: a free spot is long
  enough, and the function neither returns \<open>None\<close> nor an interval; it raises.
\<close>

theorem rand_switch_on_window_raises_counterexample:
  "(\<exists>s\<in>set [(0, 10)]. (5 :: int) \<le> snd s - fst s)
   \<and> rand_switch_on_window [(0, 10)] 5 3 0 0 = Inl FishyUpperLimit"
  by (simp add: rand_switch_on_window_def indexes_choice_def arange_def randint_def ebind_def
      Let_def upto_rec1)

text \<open>
  C5, amended. \<open>rand_switch_on_window\<close> returns \<open>None\<close> if and only if no free spot has
  length \<open>\<ge> func_cycle\<close>. The candidates are the concatenation of
  \<open>[s.start, s.end - func_cycle + 1)\<close> over the free spots. When some spot is long
  enough and \<open>func_cycle \<le> rand_time\<close>, it returns the interval
  \<open>[switch_on, switch_on + L)\<close>, where \<open>switch_on\<close> is the candidate at the drawn
  position, the interval lies in one free spot \<open>s'\<close>, and
  \<open>func_cycle \<le> L \<le> min(rand_time, s'.end - switch_on)\<close>. When some spot is long
  enough and \<open>rand_time < func_cycle\<close>, it raises ValueError.
\<close>

theorem rand_switch_on_window_spec:
  "(rand_switch_on_window spots fc rt k x = Inr None \<longleftrightarrow> (\<forall>s\<in>set spots. snd s - fst s < fc))
   \<and> indexes_choice spots fc = concat (map (\<lambda>s. arange (fst s) (snd s - fc + 1)) spots)
   \<and> ((\<exists>s\<in>set spots. fc \<le> snd s - fst s) \<and> fc \<le> rt \<longrightarrow>
        (\<exists>sw L s'. rand_switch_on_window spots fc rt k x = Inr (Some (arange sw (sw + L)))
           \<and> sw = indexes_choice spots fc ! (k mod length (indexes_choice spots fc))
           \<and> s' \<in> set spots \<and> fst s' \<le> sw \<and> sw + L \<le> snd s'
           \<and> fc \<le> L \<and> L \<le> min rt (snd s' - sw)))
   \<and> ((\<exists>s\<in>set spots. fc \<le> snd s - fst s) \<and> rt < fc \<longrightarrow>
        rand_switch_on_window spots fc rt k x = Inl FishyUpperLimit)"
proof (cases "indexes_choice spots fc = []")
  case True
  then have "rand_switch_on_window spots fc rt k x = Inr None"
    by (simp add: rand_switch_on_window_def)
  moreover from True have "\<forall>s\<in>set spots. snd s - fst s < fc"
    by (simp add: indexes_choice_Nil)
  ultimately show ?thesis
    using indexes_choice_alt [of spots fc] by (auto simp: not_le)
next
  case False
  define sw where "sw = indexes_choice spots fc ! (k mod length (indexes_choice spots fc))"
  from rand_switch_on_window_Some [OF False, of k rt x] obtain i where
    i: "i < length spots" "fst (spots ! i) \<le> sw" "sw \<le> snd (spots ! i) - fc"
    and res: "rand_switch_on_window spots fc rt k x =
               (let ld = min rt (snd (spots ! i) - sw)
                in if fc < ld then
                     Inr (Some (arange sw
                       (sw + py_int (uniform (real_of_int fc) (real_of_int ld) x))))
                   else if ld = fc then Inr (Some (arange sw (sw + ld)))
                   else Inl FishyUpperLimit)"
    unfolding sw_def by blast
  let ?ld = "min rt (snd (spots ! i) - sw)"
  from False have some: "\<exists>s\<in>set spots. fc \<le> snd s - fst s"
    by (auto simp: indexes_choice_Nil not_less)
  have not_None: "rand_switch_on_window spots fc rt k x \<noteq> Inr None"
    unfolding res by (simp add: Let_def)
  have fishy: "rand_switch_on_window spots fc rt k x = Inl FishyUpperLimit" if "rt < fc"
    unfolding res using that i by (simp add: Let_def min_def)
  have ok: "\<exists>sw' L s'. rand_switch_on_window spots fc rt k x = Inr (Some (arange sw' (sw' + L)))
           \<and> sw' = indexes_choice spots fc ! (k mod length (indexes_choice spots fc))
           \<and> s' \<in> set spots \<and> fst s' \<le> sw' \<and> sw' + L \<le> snd s'
           \<and> fc \<le> L \<and> L \<le> min rt (snd s' - sw')" if rt: "fc \<le> rt"
  proof (cases "fc < ?ld")
    case True
    let ?L = "py_int (uniform (real_of_int fc) (real_of_int ?ld) x)"
    from py_int_uniform_bounds [OF True, of x] have L: "fc \<le> ?L" "?L \<le> ?ld" by simp_all
    have "rand_switch_on_window spots fc rt k x = Inr (Some (arange sw (sw + ?L)))"
      unfolding res using True by (simp add: Let_def)
    moreover have "spots ! i \<in> set spots" using i(1) by simp
    moreover have "sw + ?L \<le> snd (spots ! i)" using L(2) by simp
    ultimately show ?thesis using L i(2) unfolding sw_def [symmetric] by blast
  next
    case False
    with rt i(3) have eq: "?ld = fc" by (simp add: min_def split: if_splits)
    then have "rand_switch_on_window spots fc rt k x = Inr (Some (arange sw (sw + fc)))"
      unfolding res by (simp add: Let_def)
    moreover have "spots ! i \<in> set spots" using i(1) by simp
    moreover have "sw + fc \<le> snd (spots ! i)" using i(3) by simp
    moreover have "fc \<le> min rt (snd (spots ! i) - sw)" using eq by simp
    ultimately show ?thesis using i(2) unfolding sw_def [symmetric] by blast
  qed
  from some not_None fishy ok indexes_choice_alt [of spots fc] show ?thesis
    by (auto simp: not_less)
qed

theorem rand_switch_on_window_spec_witness:
  "((\<exists>s\<in>set [(0 :: int, 10 :: int)]. 5 \<le> snd s - fst s) \<and> (5 :: int) \<le> 7
    \<and> (\<exists>sw L s'. rand_switch_on_window [(0, 10)] 5 7 3 (1 / 2) = Inr (Some (arange sw (sw + L)))
           \<and> sw = indexes_choice [(0, 10)] 5 ! (3 mod length (indexes_choice [(0, 10)] 5))
           \<and> s' \<in> set [(0, 10)] \<and> fst s' \<le> sw \<and> sw + L \<le> snd s'
           \<and> 5 \<le> L \<and> L \<le> min 7 (snd s' - sw)))
   \<and> ((\<exists>s\<in>set [(0 :: int, 10 :: int)]. 5 \<le> snd s - fst s) \<and> (3 :: int) < 5
    \<and> rand_switch_on_window [(0, 10)] 5 3 3 (1 / 2) = Inl FishyUpperLimit)
   \<and> (rand_switch_on_window [(0, 3)] 5 7 3 (1 / 2) = Inr None)"
  using rand_switch_on_window_spec [of "[(0, 10)]" 5 7 3 "1 / 2"]
    rand_switch_on_window_spec [of "[(0, 10)]" 5 3 3 "1 / 2"]
    rand_switch_on_window_spec [of "[(0, 3)]" 5 7 3 "1 / 2"]
  by simp

subsection \<open>Flat appliances\<close>

lemma slice_fill_ok:
  assumes "0 \<le> fst w" "fst w \<le> snd w" "snd w \<le> int (length xs)"
  shows "slice_fill xs w v =
           Inr (take (nat (fst w)) xs @ replicate (nat (snd w - fst w)) v @ drop (nat (snd w)) xs)"
proof -
  have s: "slice_index (fst w) (length xs) = nat (fst w)"
    and e: "slice_index (snd w) (length xs) = nat (snd w)"
    using assms by (auto simp: slice_index_def)
  have m: "nat (snd w) - nat (fst w) = nat (snd w - fst w)" using assms by linarith
  have "nat (fst w) + nat (snd w - fst w) = nat (snd w)" using assms by linarith
  then show ?thesis using assms by (simp add: slice_fill_def s e m Let_def)
qed

lemma fill_nth:
  "i \<le> j \<Longrightarrow> j \<le> length xs \<Longrightarrow> t < length xs \<Longrightarrow>
   (take i xs @ replicate (j - i) v @ drop j xs) ! t = (if i \<le> t \<and> t < j then v else xs ! t)"
  by (auto simp: nth_append min_def)

lemma slice_fill_nth:
  assumes "0 \<le> fst w" "fst w \<le> snd w" "snd w \<le> int (length xs)"
  shows "\<exists>ys. slice_fill xs w v = Inr ys \<and> length ys = length xs
           \<and> (\<forall>t<length xs. ys ! t = (if fst w \<le> int t \<and> int t < snd w then v else xs ! t))"
proof -
  let ?i = "nat (fst w)" and ?j = "nat (snd w)"
  let ?ys = "take ?i xs @ replicate (?j - ?i) v @ drop ?j xs"
  have ij: "?i \<le> ?j" "?j \<le> length xs" using assms by linarith+
  have m: "nat (snd w - fst w) = ?j - ?i" using assms by linarith
  have res: "slice_fill xs w v = Inr ?ys" using slice_fill_ok [OF assms, of v] by (simp add: m)
  have len: "length ?ys = length xs" using ij by simp
  have "?ys ! t = (if fst w \<le> int t \<and> int t < snd w then v else xs ! t)" if "t < length xs" for t
  proof -
    have "(fst w \<le> int t \<and> int t < snd w) = (?i \<le> t \<and> t < ?j)" using assms by linarith
    then show ?thesis using fill_nth [OF ij that, of v] by simp
  qed
  with len res show ?thesis by blast
qed

lemma ebind_Inl: "ebind (Inl e) f = Inl e"
  by (simp add: ebind_def)

lemma ebind_Inr: "ebind (Inr x) f = f x"
  by (simp add: ebind_def)

lemma fold_fill_Inl:
  "fold (\<lambda>w acc. ebind acc (\<lambda>d. slice_fill d w v)) ws (Inl e) = Inl e"
  by (induction ws) (simp_all add: ebind_Inl)

lemma fill_windows_Nil: "fill_windows xs [] v = Inr xs"
  by (simp add: fill_windows_def)

lemma fill_windows_Cons:
  "fill_windows xs (w # ws) v = ebind (slice_fill xs w v) (\<lambda>ys. fill_windows ys ws v)"
  by (cases "slice_fill xs w v") (simp_all add: fill_windows_def ebind_Inl ebind_Inr fold_fill_Inl)

lemma fill_windows_nth:
  assumes "\<forall>w\<in>set ws. 0 \<le> fst w \<and> fst w \<le> snd w \<and> snd w \<le> int (length xs)"
  shows "\<exists>ys. fill_windows xs ws v = Inr ys \<and> length ys = length xs
           \<and> (\<forall>t<length xs. ys ! t =
                 (if \<exists>w\<in>set ws. fst w \<le> int t \<and> int t < snd w then v else xs ! t))"
  using assms
proof (induction ws arbitrary: xs)
  case Nil
  then show ?case by (simp add: fill_windows_Nil)
next
  case (Cons w ws)
  from Cons.prems have w: "0 \<le> fst w" "fst w \<le> snd w" "snd w \<le> int (length xs)" by simp_all
  from slice_fill_nth [OF w, of v] obtain ys where
    ys: "slice_fill xs w v = Inr ys" "length ys = length xs"
        "\<forall>t<length xs. ys ! t = (if fst w \<le> int t \<and> int t < snd w then v else xs ! t)"
    by blast
  from Cons.prems ys(2)
  have "\<forall>w\<in>set ws. 0 \<le> fst w \<and> fst w \<le> snd w \<and> snd w \<le> int (length ys)" by simp
  from Cons.IH [OF this] obtain zs where
    zs: "fill_windows ys ws v = Inr zs" "length zs = length ys"
        "\<forall>t<length ys. zs ! t =
            (if \<exists>w\<in>set ws. fst w \<le> int t \<and> int t < snd w then v else ys ! t)"
    by blast
  have "fill_windows xs (w # ws) v = Inr zs"
    by (simp add: fill_windows_Cons ys(1) zs(1) ebind_def)
  moreover have "length zs = length xs" using ys(2) zs(2) by simp
  moreover have "\<forall>t<length xs. zs ! t =
      (if \<exists>w'\<in>set (w # ws). fst w' \<le> int t \<and> int t < snd w' then v else xs ! t)"
    using ys(2,3) zs(3) by auto
  ultimately show ?case by blast
qed

lemma fill_windows_zeros:
  assumes "\<forall>w\<in>set ws. 0 \<le> fst w \<and> fst w \<le> snd w \<and> snd w \<le> int n"
  shows "\<exists>ys. fill_windows (replicate n 0) ws v = Inr ys \<and> length ys = n
           \<and> (\<forall>t<n. ys ! t =
                 (if \<exists>w\<in>set ws. fst w \<le> int t \<and> int t < snd w then v else 0))"
proof -
  from assms
  have "\<forall>w\<in>set ws. 0 \<le> fst w \<and> fst w \<le> snd w
          \<and> snd w \<le> int (length (replicate n (0 :: real)))"
    by simp
  from fill_windows_nth [OF this, of v] obtain ys where
    ys: "fill_windows (replicate n 0) ws v = Inr ys"
        "length ys = length (replicate n (0 :: real))"
        "\<forall>t<length (replicate n (0 :: real)). ys ! t =
            (if \<exists>w\<in>set ws. fst w \<le> int t \<and> int t < snd w then v
             else replicate n 0 ! t)"
    by blast
  have "ys ! t = (if \<exists>w\<in>set ws. fst w \<le> int t \<and> int t < snd w then v else 0)"
    if "t < n" for t
  proof -
    from that ys(3)
    have "ys ! t = (if \<exists>w\<in>set ws. fst w \<le> int t \<and> int t < snd w then v
                    else replicate n 0 ! t)"
      by simp
    also have "replicate n (0 :: real) ! t = 0" using that by simp
    finally show ?thesis .
  qed
  with ys(1,2) show ?thesis by simp
qed

lemma calc_rand_window_clamped:
  "calc_rand_window a i ks ke = Inr (s, e) \<Longrightarrow> 0 \<le> s \<and> e \<le> 1440"
  by (auto simp: calc_rand_window_def Let_def ebind_def randint_def split: if_splits)

lemma rand_windows_of_clamped:
  "rand_windows_of a d = Inr ws \<Longrightarrow> length ws = 3 \<and> (\<forall>w\<in>set ws. 0 \<le> fst w \<and> snd w \<le> 1440)"
  unfolding rand_windows_of_def
  by (auto simp: ebind_def split: sum.splits dest: calc_rand_window_clamped)


lemma np_index_ok: "0 \<le> i \<Longrightarrow> i < int (length xs) \<Longrightarrow> np_index xs i = Inr (xs ! nat i)"
  by (simp add: np_index_def Let_def)

lemma generate_load_profile_flat_general:
  assumes flat: "flat a = ''yes''"
    and elig: "skipped a up dt d = Inr False"
    and rws: "rand_windows_of a d = Inr rws"
    and ord: "\<forall>w\<in>set rws. fst w \<le> snd w"
    and rt: "rand_total_time_of_use a (rws ! 0) (rws ! 1) (rws ! 2) (time_var_x d) (time_x d)
               = Inr rand_time"
    and day: "0 \<le> prof_i" "prof_i < int (length (power_series a))"
  shows "\<exists>du. length du = 1440
           \<and> (\<forall>t<1440. du ! t =
                 (if \<exists>w\<in>set rws. fst w \<le> int t \<and> int t < snd w
                  then power_series a ! nat prof_i * real_of_int (number a) else 0))
           \<and> (\<forall>peak pw sp s c1 c2 r1 r2 r3.
                 generate_load_profile a up prof_i peak dt pw sp
                   (d\<lparr>duty_cycle_1 := c1, duty_cycle_2 := c2, random_choice_1 := r1,
                      random_choice_2 := r2, random_choice_3 := r3, step := s\<rparr>)
                 = Inr (a\<lparr>daily_use := Some du\<rparr>))"
proof -
  let ?v = "power_series a ! nat prof_i * real_of_int (number a)"
  from rand_windows_of_clamped [OF rws] ord
  have "\<forall>w\<in>set rws. 0 \<le> fst w \<and> fst w \<le> snd w \<and> snd w \<le> int 1440"
    by simp
  from fill_windows_zeros [OF this, of ?v] obtain du where
    du: "fill_windows (replicate 1440 0) rws ?v = Inr du" "length du = 1440"
        "\<forall>t<1440. du ! t =
           (if \<exists>w\<in>set rws. fst w \<le> int t \<and> int t < snd w then ?v else 0)"
    by blast
  have "generate_load_profile a up prof_i peak dt pw sp
          (d\<lparr>duty_cycle_1 := c1, duty_cycle_2 := c2, random_choice_1 := r1,
             random_choice_2 := r2, random_choice_3 := r3, step := s\<rparr>)
        = Inr (a\<lparr>daily_use := Some du\<rparr>)" for peak pw sp s c1 c2 r1 r2 r3
  proof -
    let ?d = "d\<lparr>duty_cycle_1 := c1, duty_cycle_2 := c2, random_choice_1 := r1,
                random_choice_2 := r2, random_choice_3 := r3, step := s\<rparr>"
    let ?a0 = "a\<lparr>daily_use := Some (replicate 1440 0)\<rparr>"
    have "skipped ?a0 up dt ?d = skipped a up dt d"
      by (simp add: skipped_def)
    with elig have 1: "skipped ?a0 up dt ?d = Inr False" by simp
    have "rand_windows_of ?a0 ?d = rand_windows_of a d"
      by (simp add: rand_windows_of_def calc_rand_window_def)
    with rws have 2: "rand_windows_of ?a0 ?d = Inr rws" by simp
    have "rand_total_time_of_use ?a0 (rws ! 0) (rws ! Suc 0) (rws ! 2) (time_var_x d) (time_x d)
            = rand_total_time_of_use a (rws ! 0) (rws ! 1) (rws ! 2) (time_var_x d) (time_x d)"
      by (simp add: rand_total_time_of_use_def Let_def)
    with rt
    have 3: "rand_total_time_of_use ?a0 (rws ! 0) (rws ! Suc 0) (rws ! 2) (time_var_x d) (time_x d)
               = Inr rand_time"
      by simp
    have 4: "np_index (power_series a) prof_i = Inr (power_series a ! nat prof_i)"
      using np_index_ok [OF day] by simp
    show ?thesis
      unfolding generate_load_profile_def generate_load_profile_run_def Let_def
      using flat du(1) by (simp add: 1 2 3 4 ebind_Inr)
  qed
  with du(2,3) show ?thesis by blast
qed


text \<open>
  C6, as the claim states it, fails for a flat appliance whose minimal cycle does not
  fit its windows: the total time of use is randomised, and checked against
  \<open>func_cycle\<close>, before the flat branch is reached. With a minimal cycle of 200 minutes
  and the window \<open>[480, 600)\<close> the appliance passes the eligibility checks and the call
  raises.
\<close>

theorem generate_load_profile_flat_raises_counterexample:
  "flat (projr (example_appliance ''yes'' 120 200 2 (480, 600))) = ''yes''
   \<and> skipped (projr (example_appliance ''yes'' 120 200 2 (480, 600))) 0 (DayInt 0) example_draws
       = Inr False
   \<and> generate_load_profile (projr (example_appliance ''yes'' 120 200 2 (480, 600))) 0 0 []
       (DayInt 0) 100 example_parameters example_draws
       = Inl FuncCycleTooLarge"
  by (simp add: example_appliance_eq example_draws_def generate_load_profile_def
      generate_load_profile_run_def skipped_def ebind_def uniform_def rand_windows_of_def
      calc_rand_window_def randint_def rand_total_time_of_use_def random_variation_def
      py_int_def in_day_types_def Let_def py_round_numeral)

text \<open>
  C6, amended. If \<open>flat = 'yes'\<close>, the appliance passes the eligibility checks, every
  jittered window has its start before its end, the randomised total time of use is
  accepted (it raises no error for \<open>func_cycle\<close>) and the day has an entry in the power
  series, then \<open>generate_load_profile\<close> returns and sets \<open>daily_use\<close> to
  \<open>power[prof_i] * number\<close> at every minute of each jittered window and to 0 at every
  other minute. Nothing else of the appliance changes, and the result depends on no
  further random value: not on the duty cycles, not on the draws of the switch-on loop
  (coincidence included), not on the peak range. In the concrete case (two copies of
  100 W, the window \<open>[480, 600)\<close>, 120 minutes of use, and the defaults for all other
  arguments) every minute of \<open>[480, 600)\<close> is 200, whatever the day and the draws, and
  the daily sum is 24000.
\<close>

theorem generate_load_profile_flat:
  "(flat a = ''yes'' \<and> skipped a up dt d = Inr False \<and> rand_windows_of a d = Inr rws
      \<and> (\<forall>w\<in>set rws. fst w \<le> snd w)
      \<and> rand_total_time_of_use a (rws ! 0) (rws ! 1) (rws ! 2) (time_var_x d) (time_x d)
           = Inr rand_time
      \<and> 0 \<le> prof_i \<and> prof_i < int (length (power_series a))
    \<longrightarrow> (\<exists>du. length du = 1440
           \<and> (\<forall>t<1440. du ! t =
                 (if \<exists>w\<in>set rws. fst w \<le> int t \<and> int t < snd w
                  then power_series a ! nat prof_i * real_of_int (number a) else 0))
           \<and> (\<forall>peak pw sp s c1 c2 r1 r2 r3.
                 generate_load_profile a up prof_i peak dt pw sp
                   (d\<lparr>duty_cycle_1 := c1, duty_cycle_2 := c2, random_choice_1 := r1,
                      random_choice_2 := r2, random_choice_3 := r3, step := s\<rparr>)
                 = Inr (a\<lparr>daily_use := Some du\<rparr>))))
   \<and> (0 \<le> day \<and> day < 365 \<longrightarrow>
        generate_load_profile (projr (example_appliance ''yes'' 120 1 2 (480, 600))) 0 day
          peak' dt' pw' sp' d'
        = Inr ((projr (example_appliance ''yes'' 120 1 2 (480, 600)))
                 \<lparr>daily_use := Some (replicate 480 0 @ replicate 120 200 @ replicate 840 0)\<rparr>)
        \<and> sum_list (replicate 480 0 @ replicate 120 200 @ replicate 840 (0 :: real)) = 24000)"
proof (intro conjI impI)
  assume "flat a = ''yes'' \<and> skipped a up dt d = Inr False \<and> rand_windows_of a d = Inr rws
      \<and> (\<forall>w\<in>set rws. fst w \<le> snd w)
      \<and> rand_total_time_of_use a (rws ! 0) (rws ! 1) (rws ! 2) (time_var_x d) (time_x d)
           = Inr rand_time
      \<and> 0 \<le> prof_i \<and> prof_i < int (length (power_series a))"
  then show "\<exists>du. length du = 1440
           \<and> (\<forall>t<1440. du ! t =
                 (if \<exists>w\<in>set rws. fst w \<le> int t \<and> int t < snd w
                  then power_series a ! nat prof_i * real_of_int (number a) else 0))
           \<and> (\<forall>peak pw sp s c1 c2 r1 r2 r3.
                 generate_load_profile a up prof_i peak dt pw sp
                   (d\<lparr>duty_cycle_1 := c1, duty_cycle_2 := c2, random_choice_1 := r1,
                      random_choice_2 := r2, random_choice_3 := r3, step := s\<rparr>)
                 = Inr (a\<lparr>daily_use := Some du\<rparr>))"
    using generate_load_profile_flat_general [of a up dt d rws rand_time prof_i] by blast
next
  assume "0 \<le> day \<and> day < 365"
  then show "generate_load_profile (projr (example_appliance ''yes'' 120 1 2 (480, 600))) 0 day
          peak' dt' pw' sp' d'
        = Inr ((projr (example_appliance ''yes'' 120 1 2 (480, 600)))
                 \<lparr>daily_use := Some (replicate 480 0 @ replicate 120 200 @ replicate 840 0)\<rparr>)"
    by (simp add: generate_load_profile_flat_example in_day_types_def split: day_arg.splits)
next
  show "sum_list (replicate 480 0 @ replicate 120 200 @ replicate 840 (0 :: real)) = 24000"
    by (simp add: sum_list_replicate)
qed

theorem generate_load_profile_flat_witness:
  "flat (projr (example_appliance ''yes'' 120 1 2 (480, 600))) = ''yes''
   \<and> skipped (projr (example_appliance ''yes'' 120 1 2 (480, 600))) 0 (DayInt 0) example_draws
       = Inr False
   \<and> rand_windows_of (projr (example_appliance ''yes'' 120 1 2 (480, 600))) example_draws
       = Inr [(480, 600), (0, 0), (0, 0)]
   \<and> rand_total_time_of_use (projr (example_appliance ''yes'' 120 1 2 (480, 600)))
       (480, 600) (0, 0) (0, 0) 0 0 = Inr 118
   \<and> (\<exists>du. length du = 1440 \<and> du ! 500 = 200 \<and> du ! 100 = 0
         \<and> generate_load_profile (projr (example_appliance ''yes'' 120 1 2 (480, 600))) 0 7 []
             (DayInt 0) 100 example_parameters example_draws
           = Inr ((projr (example_appliance ''yes'' 120 1 2 (480, 600)))\<lparr>daily_use := Some du\<rparr>))
   \<and> generate_load_profile (projr (example_appliance ''yes'' 120 1 2 (480, 600))) 0 7 []
         (DayInt 0) 100 example_parameters example_draws
       = Inr ((projr (example_appliance ''yes'' 120 1 2 (480, 600)))
                \<lparr>daily_use := Some (replicate 480 0 @ replicate 120 200 @ replicate 840 0)\<rparr>)"
proof -
  let ?a = "projr (example_appliance ''yes'' 120 1 2 (480, 600))"
  have 1: "flat ?a = ''yes''" by (simp add: example_appliance_eq)
  have 2: "skipped ?a 0 (DayInt 0) example_draws = Inr False"
    by (simp add: example_appliance_eq skipped_def example_draws_def ebind_def uniform_def
        in_day_types_def)
  have 3: "rand_windows_of ?a example_draws = Inr [(480, 600), (0, 0), (0, 0)]"
    by (simp add: example_appliance_eq rand_windows_of_def calc_rand_window_def randint_def
        ebind_def example_draws_def)
  have 4: "rand_total_time_of_use ?a (480, 600) (0, 0) (0, 0) 0 0 = Inr 118"
    by (simp add: example_appliance_eq rand_total_time_of_use_def random_variation_def
        uniform_def py_int_def py_round_numeral Let_def)
  have 5: "\<forall>w\<in>set [(480 :: int, 600 :: int), (0, 0), (0, 0)]. fst w \<le> snd w" by simp
  have 6: "(0 :: int) \<le> 7 \<and> 7 < int (length (power_series ?a))"
    by (simp add: example_appliance_eq)
  have 7: "time_var_x example_draws = 0" "time_x example_draws = 0"
    by (simp_all add: example_draws_def)
  from generate_load_profile_flat
         [of ?a 0 "DayInt 0" example_draws "[(480, 600), (0, 0), (0, 0)]" 118 7, THEN conjunct1]
       1 2 3 4 5 6 7
  obtain du where du: "length du = 1440"
    "\<forall>t<1440. du ! t =
       (if \<exists>w\<in>set [(480 :: int, 600 :: int), (0, 0), (0, 0)]. fst w \<le> int t \<and> int t < snd w
        then power_series ?a ! nat 7 * real_of_int (number ?a) else 0)"
    "\<forall>peak pw sp s c1 c2 r1 r2 r3.
       generate_load_profile ?a 0 7 peak (DayInt 0) pw sp
         (example_draws\<lparr>duty_cycle_1 := c1, duty_cycle_2 := c2, random_choice_1 := r1,
            random_choice_2 := r2, random_choice_3 := r3, step := s\<rparr>)
       = Inr (?a\<lparr>daily_use := Some du\<rparr>)"
    by auto
  from du(2) have "du ! 500 = 200" "du ! 100 = 0" by (simp_all add: example_appliance_eq)
  moreover from du(3) [rule_format, where peak = "[]" and pw = 100 and sp = example_parameters
      and s = "step example_draws" and ?c1.0 = "duty_cycle_1 example_draws"
      and ?c2.0 = "duty_cycle_2 example_draws" and ?r1.0 = "random_choice_1 example_draws"
      and ?r2.0 = "random_choice_2 example_draws" and ?r3.0 = "random_choice_3 example_draws"]
  have "generate_load_profile ?a 0 7 [] (DayInt 0) 100 example_parameters example_draws
          = Inr (?a\<lparr>daily_use := Some du\<rparr>)"
    by simp
  moreover from generate_load_profile_flat
      [where day = 7 and ?peak' = "[]" and ?dt' = "DayInt 0" and ?pw' = 100
         and ?sp' = example_parameters and ?d' = example_draws, THEN conjunct2]
  have "generate_load_profile ?a 0 7 [] (DayInt 0) 100 example_parameters example_draws
          = Inr (?a\<lparr>daily_use := Some (replicate 480 0 @ replicate 120 200 @ replicate 840 0)\<rparr>)"
    by simp
  ultimately show ?thesis using 1 2 3 4 du(1) by blast
qed


subsection \<open>The sentinel of the functioning windows\<close>

text \<open>
  A switch-on event writes at its own minutes only, and these are never negative, since
  no free spot starts before minute 0.
\<close>

lemma put_from_frame:
  "put_from j xs ind vs = Inr ys \<Longrightarrow> \<forall>i\<in>set ind. 0 \<le> i \<Longrightarrow>
   length ys = length xs \<and> (\<forall>t. int t \<notin> set ind \<longrightarrow> ys ! t = xs ! t)"
proof (induction ind arbitrary: j xs)
  case Nil
  then show ?case by simp
next
  case (Cons i ind)
  from Cons.prems(2) have i: "0 \<le> i" and rest: "\<forall>i\<in>set ind. 0 \<le> i" by simp_all
  let ?xs = "xs[nat i := vs ! (j mod length vs)]"
  from Cons.prems(1) i have "put_from (Suc j) ?xs ind vs = Inr ys"
    by (simp add: Let_def split: if_splits)
  from Cons.IH [OF this rest]
  have ih: "length ys = length ?xs" "\<forall>t. int t \<notin> set ind \<longrightarrow> ys ! t = ?xs ! t" by simp_all
  have "ys ! t = xs ! t" if "int t \<notin> set (i # ind)" for t
  proof -
    from that i have "t \<noteq> nat i" "int t \<notin> set ind" by auto
    with ih(2) show ?thesis by simp
  qed
  with ih(1) show ?case by simp
qed

lemma np_put_frame:
  "np_put xs ind vs = Inr ys \<Longrightarrow> \<forall>i\<in>set ind. 0 \<le> i \<Longrightarrow>
   length ys = length xs \<and> (\<forall>t. int t \<notin> set ind \<longrightarrow> ys ! t = xs ! t)"
  using put_from_frame [of 0 xs ind vs ys] by (auto simp: np_put_def split: if_splits)

lemma find_index_SomeD:
  "find_index P xs = Some i \<Longrightarrow> i < length xs \<and> P (xs ! i)"
  by (induction xs arbitrary: i) (auto split: if_splits option.splits)

lemma update_available_starts:
  assumes res: "update_available_time_for_switch_on_events spots indexes = Inr spots'"
    and spots: "\<forall>s\<in>set spots. 0 \<le> fst s"
    and idx: "\<forall>i\<in>set indexes. 0 \<le> i"
  shows "\<forall>s\<in>set spots'. 0 \<le> fst s"
proof (cases "spots = [] \<or> indexes = []")
  case True
  with res spots show ?thesis
    by (auto simp: update_available_time_for_switch_on_events_def split: if_splits)
next
  case False
  then have ne: "spots \<noteq> []" "indexes \<noteq> []" by simp_all
  then have last: "0 \<le> last indexes" using idx by simp
  let ?P = "\<lambda>fs. fst fs \<le> hd indexes \<and> last indexes \<le> snd fs"
  show ?thesis
  proof (cases "find_index ?P spots")
    case None
    with res ne spots show ?thesis
      by (simp add: update_available_time_for_switch_on_events_def Let_def)
  next
    case (Some i)
    from find_index_SomeD [OF Some] have i: "i < length spots" by simp
    then have "spots ! i \<in> set spots" by simp
    with spots have start: "0 \<le> fst (spots ! i)" by simp
    have sub: "\<forall>s\<in>set (take i spots). 0 \<le> fst s" "\<forall>s\<in>set (drop (Suc i) spots). 0 \<le> fst s"
      using spots by (auto dest: in_set_takeD in_set_dropD)
    from res ne Some have "spots' =
         (if hd indexes = fst (spots ! i) \<and> last indexes = snd (spots ! i)
          then take i spots @ drop (Suc i) spots
          else if hd indexes = fst (spots ! i) then
            take i spots @ [(last indexes + 1, snd (spots ! i))] @ drop (Suc i) spots
          else if last indexes = snd (spots ! i) then
            take i spots @ [(fst (spots ! i), hd indexes)] @ drop (Suc i) spots
          else
            take i spots @ [(fst (spots ! i), hd indexes), (last indexes + 1, snd (spots ! i))]
              @ drop (Suc i) spots)"
      by (simp add: update_available_time_for_switch_on_events_def Let_def)
    with sub start last show ?thesis by (auto split: if_splits)
  qed
qed

lemma update_daily_use_frame:
  assumes res: "update_daily_use a c pw indexes x st = Inr st'"
    and idx: "\<forall>i\<in>set indexes. 0 \<le> i"
    and spots: "\<forall>s\<in>set (ls_free_spots st). 0 \<le> fst s"
  shows "length (ls_daily_use st') = length (ls_daily_use st)
       \<and> ls_events st' = ls_events st @ [indexes]
       \<and> (\<forall>t. int t \<notin> set indexes \<longrightarrow> ls_daily_use st' ! t = ls_daily_use st ! t)
       \<and> (\<forall>s\<in>set (ls_free_spots st'). 0 \<le> fst s)"
proof -
  from res obtain vs du spots' where
    put: "np_put (ls_daily_use st) indexes vs = Inr du"
    and upd: "update_available_time_for_switch_on_events (ls_free_spots st) indexes = Inr spots'"
    and st': "st' = \<lparr>ls_daily_use = du, ls_free_spots = spots',
                     ls_events = ls_events st @ [indexes]\<rparr>"
    unfolding update_daily_use_def Let_def
    by (auto simp: ebind_def split: if_splits sum.splits)
  from np_put_frame [OF put idx] update_available_starts [OF upd spots idx] st'
  show ?thesis by simp
qed

lemma switch_on_event_frame:
  assumes res: "switch_on_event a sp peak pw sd indexes st = Inr st'"
    and idx: "\<forall>i\<in>set indexes. 0 \<le> i"
    and spots: "\<forall>s\<in>set (ls_free_spots st). 0 \<le> fst s"
  shows "length (ls_daily_use st') = length (ls_daily_use st)
       \<and> ls_events st' = ls_events st @ [indexes]
       \<and> (\<forall>t. int t \<notin> set indexes \<longrightarrow> ls_daily_use st' ! t = ls_daily_use st ! t)
       \<and> (\<forall>s\<in>set (ls_free_spots st'). 0 \<le> fst s)"
proof -
  from res obtain c where "update_daily_use a c pw indexes (thermal_x sd) st = Inr st'"
    by (auto simp: switch_on_event_def Let_def ebind_def split: if_splits sum.splits)
  from update_daily_use_frame [OF this idx spots] show ?thesis .
qed

lemma rand_switch_on_window_nonneg:
  assumes res: "rand_switch_on_window spots fc rt k x = Inr (Some indexes)"
    and spots: "\<forall>s\<in>set spots. 0 \<le> fst s"
  shows "\<forall>i\<in>set indexes. 0 \<le> i"
proof -
  have ne: "indexes_choice spots fc \<noteq> []"
    using res by (auto simp: rand_switch_on_window_def)
  define sw where "sw = indexes_choice spots fc ! (k mod length (indexes_choice spots fc))"
  from rand_switch_on_window_Some [OF ne, of k rt x] obtain i where
    i: "i < length spots" "fst (spots ! i) \<le> sw"
    and eq: "rand_switch_on_window spots fc rt k x =
               (let ld = min rt (snd (spots ! i) - sw)
                in if fc < ld then
                     Inr (Some (arange sw
                       (sw + py_int (uniform (real_of_int fc) (real_of_int ld) x))))
                   else if ld = fc then Inr (Some (arange sw (sw + ld)))
                   else Inl FishyUpperLimit)"
    unfolding sw_def by blast
  from i spots have "0 \<le> sw" by (meson nth_mem order_trans)
  moreover from res eq obtain e where "indexes = arange sw e"
    by (auto simp: Let_def split: if_splits)
  ultimately show ?thesis by (auto simp: set_arange)
qed


lemma switch_on_loop_frame:
  assumes "switch_on_loop a sp peak pw rt ds n tot st = Inr st'"
    and "\<forall>s\<in>set (ls_free_spots st). 0 \<le> fst s"
  shows "length (ls_daily_use st') = length (ls_daily_use st)
       \<and> (\<exists>new. ls_events st' = ls_events st @ new
             \<and> (\<forall>t. (\<forall>e\<in>set new. int t \<notin> set e)
                   \<longrightarrow> ls_daily_use st' ! t = ls_daily_use st ! t))"
  using assms
proof (induction a sp peak pw rt ds n tot st rule: switch_on_loop.induct)
  case (1 a sp peak pw rt ds n tot st)
  note res = "1.prems"(1) and spots = "1.prems"(2)
  have same: ?case if "st' = st"
    using that by (intro conjI exI [of _ "[]"]) simp_all
  show ?case
  proof (cases "tot \<le> rt")
    case False
    with res have "st' = st" by (subst (asm) switch_on_loop.simps) simp
    then show ?thesis by (rule same)
  next
    case True
    show ?thesis
    proof (cases "rand_switch_on_window (ls_free_spots st) (func_cycle a) rt
                    (choice_k (ds n)) (duration_x (ds n))")
      case (Inl e)
      with res True show ?thesis by (subst (asm) switch_on_loop.simps) simp
    next
      case (Inr r)
      show ?thesis
      proof (cases r)
        case None
        with res True Inr have "st' = st" by (subst (asm) switch_on_loop.simps) simp
        then show ?thesis by (rule same)
      next
        case (Some indexes)
        from rand_switch_on_window_nonneg [OF Inr [unfolded Some] spots]
        have idx: "\<forall>i\<in>set indexes. 0 \<le> i" .
        define tot' where "tot' = tot + int (length indexes)"
        show ?thesis
        proof (cases "rt < tot'")
          case over: True
          define adj where "adj = take (length indexes - nat (tot' - rt)) indexes"
          show ?thesis
          proof (cases "0 < length adj")
            case True
            with res \<open>tot \<le> rt\<close> Inr Some over
            have ev: "switch_on_event a sp peak pw (ds n) adj st = Inr st'"
              by (subst (asm) switch_on_loop.simps)
                 (auto simp: Let_def tot'_def adj_def split: if_splits)
            have "\<forall>i\<in>set adj. 0 \<le> i" using idx unfolding adj_def by (auto dest: in_set_takeD)
            from switch_on_event_frame [OF ev this spots] show ?thesis
              by (intro conjI exI [of _ "[adj]"]) simp_all
          next
            case False
            with res \<open>tot \<le> rt\<close> Inr Some over have "st' = st"
              by (subst (asm) switch_on_loop.simps)
                 (auto simp: Let_def tot'_def adj_def split: if_splits)
            then show ?thesis by (rule same)
          qed
        next
          case under: False
          from res \<open>tot \<le> rt\<close> Inr Some under have ne: "indexes \<noteq> []"
            by (subst (asm) switch_on_loop.simps) (auto simp: Let_def tot'_def)
          from res \<open>tot \<le> rt\<close> Inr Some under ne obtain st1 where
            ev: "switch_on_event a sp peak pw (ds n) indexes st = Inr st1"
            and rec: "switch_on_loop a sp peak pw rt ds (Suc n) tot' st1 = Inr st'"
            by (subst (asm) switch_on_loop.simps)
               (auto simp: Let_def tot'_def split: sum.splits)
          from switch_on_event_frame [OF ev idx spots]
          have f1: "length (ls_daily_use st1) = length (ls_daily_use st)"
            "ls_events st1 = ls_events st @ [indexes]"
            "\<forall>t. int t \<notin> set indexes \<longrightarrow> ls_daily_use st1 ! t = ls_daily_use st ! t"
            "\<forall>s\<in>set (ls_free_spots st1). 0 \<le> fst s"
            by simp_all
          from "1.IH" [OF \<open>tot \<le> rt\<close> Inr Some tot'_def under ne ev rec f1(4)]
          obtain new where
            f2: "length (ls_daily_use st') = length (ls_daily_use st1)"
            "ls_events st' = ls_events st1 @ new"
            "\<forall>t. (\<forall>e\<in>set new. int t \<notin> set e) \<longrightarrow> ls_daily_use st' ! t = ls_daily_use st1 ! t"
            by blast
          show ?thesis
            using f1 f2 by (intro conjI exI [of _ "indexes # new"]) simp_all
        qed
      qed
    qed
  qed
qed


lemma slice_fill_ordered: "slice_fill xs w v = Inr ys \<Longrightarrow> fst w \<le> snd w"
  by (simp add: slice_fill_def Let_def split: if_splits)

lemma fill_windows_ordered:
  "fill_windows xs ws v = Inr ys \<Longrightarrow> \<forall>w\<in>set ws. 0 \<le> fst w \<and> snd w \<le> int (length xs) \<Longrightarrow>
   \<forall>w\<in>set ws. fst w \<le> snd w"
proof (induction ws arbitrary: xs)
  case Nil
  then show ?case by simp
next
  case (Cons w ws)
  from Cons.prems(1) obtain zs where
    zs: "slice_fill xs w v = Inr zs" "fill_windows zs ws v = Inr ys"
    by (auto simp: fill_windows_Cons ebind_def split: sum.splits)
  from slice_fill_ordered [OF zs(1)] have w: "fst w \<le> snd w" .
  with Cons.prems(2) slice_fill_nth [of w xs v] zs(1) have "length zs = length xs" by auto
  with Cons.prems(2) have "\<forall>w\<in>set ws. 0 \<le> fst w \<and> snd w \<le> int (length zs)" by simp
  from Cons.IH [OF zs(2) this] w show ?case by simp
qed

lemma generate_load_profile_run_sentinel:
  assumes nonflat: "flat a \<noteq> ''yes''"
    and elig: "skipped a up dt d = Inr False"
    and rws: "rand_windows_of a d = Inr rws"
    and run: "generate_load_profile_run a up prof_i peak dt pw sp d = Inr (a', events)"
  shows "\<exists>du. daily_use a' = Some du \<and> length du = 1440
           \<and> (\<forall>t<1440. (\<exists>w\<in>set rws. fst w \<le> int t \<and> int t < snd w)
                          \<and> (\<forall>e\<in>set events. int t \<notin> set e)
                 \<longrightarrow> du ! t = 1 / 1000)"
proof -
  let ?a0 = "a\<lparr>daily_use := Some (replicate 1440 0)\<rparr>"
  have "skipped ?a0 up dt d = skipped a up dt d" by (simp add: skipped_def)
  with elig have 1: "skipped ?a0 up dt d = Inr False" by simp
  have "rand_windows_of ?a0 d = rand_windows_of a d"
    by (simp add: rand_windows_of_def calc_rand_window_def)
  with rws have 2: "rand_windows_of ?a0 d = Inr rws" by simp
  from run nonflat obtain rand_time du0 st where
    fill: "fill_windows (replicate 1440 0) rws (1 / 1000) = Inr du0"
    and loop: "switch_on_loop (assign_random_cycles (?a0\<lparr>daily_use := Some du0\<rparr>) d) sp peak pw
                 rand_time (step d) 0 0
                 \<lparr>ls_daily_use = du0, ls_free_spots = filter (\<lambda>rw. fst rw \<noteq> snd rw) rws,
                  ls_events = []\<rparr> = Inr st"
    and a': "daily_use a' = Some (ls_daily_use st)"
    and ev: "events = ls_events st"
    unfolding generate_load_profile_run_def Let_def
    by (auto simp: 1 2 ebind_Inr ebind_def split: sum.splits)
  from rand_windows_of_clamped [OF rws]
  have clamp: "\<forall>w\<in>set rws. 0 \<le> fst w \<and> snd w \<le> int (length (replicate 1440 (0 :: real)))"
    by simp
  from fill_windows_ordered [OF fill clamp] clamp
  have "\<forall>w\<in>set rws. 0 \<le> fst w \<and> fst w \<le> snd w \<and> snd w \<le> int 1440" by simp
  from fill_windows_zeros [OF this, of "1 / 1000"] fill
  have du0: "length du0 = 1440"
    "\<forall>t<1440. du0 ! t =
       (if \<exists>w\<in>set rws. fst w \<le> int t \<and> int t < snd w then 1 / 1000 else 0)"
    by auto
  have "\<forall>s\<in>set (ls_free_spots
          \<lparr>ls_daily_use = du0, ls_free_spots = filter (\<lambda>rw. fst rw \<noteq> snd rw) rws,
           ls_events = []\<rparr>). 0 \<le> fst s"
    using clamp by simp
  from switch_on_loop_frame [OF loop this] obtain new where
    fr: "length (ls_daily_use st) = length du0" "ls_events st = new"
        "\<forall>t. (\<forall>e\<in>set new. int t \<notin> set e) \<longrightarrow> ls_daily_use st ! t = du0 ! t"
    by auto
  have "ls_daily_use st ! t = 1 / 1000"
    if "t < 1440" "\<exists>w\<in>set rws. fst w \<le> int t \<and> int t < snd w" "\<forall>e\<in>set events. int t \<notin> set e"
    for t
  proof -
    from that(3) ev fr(2,3) have "ls_daily_use st ! t = du0 ! t" by simp
    also from that(1,2) du0(2) have "du0 ! t = 1 / 1000" by simp
    finally show ?thesis .
  qed
  with a' fr(1) du0(1) show ?thesis by simp
qed

lemma example_appliance_three_eq:
  "example_appliance ''no'' 2 1 2 (480, 483) =
     Inr \<lparr>number = 2, power_series = replicate 366 100, num_windows = 1,
          func_time = 2, time_fraction_random_variability = 0,
          func_cycle = 1, fixed = ''no'', fixed_cycle = 0,
          occasional_use = 1, flat = ''no'', thermal_p_var = 0,
          pref_index = 0, wd_we_type = 2, random_var_w = 0,
          window_1 = (480, 483), window_2 = (0, 0), window_3 = (0, 0),
          random_var_1 = 0, random_var_2 = 0, random_var_3 = 0,
          daily_use = Some (replicate 480 0 @ replicate 3 (1 / 1000) @ replicate 957 0),
          free_spots = None, cw11 = (0, 0), cw12 = (0, 0), cw21 = (0, 0),
          cw22 = (0, 0), cw31 = (0, 0), cw32 = (0, 0), random_cycle1 = [],
          random_cycle2 = [], random_cycle3 = []\<rparr>"
  by (simp add: example_appliance_def Appliance_init_def Appliance_init_power_def ebind_def
      windows_def window_time_def np_diff_def slice_fill_def slice_index_def py_int_def Let_def)

lemma example_nonflat_run:
  "generate_load_profile_run (projr (example_appliance ''no'' 2 1 2 (480, 483))) 0 0 [700]
     (DayInt 0) 100 example_parameters example_draws
   = Inr ((projr (example_appliance ''no'' 2 1 2 (480, 483)))
            \<lparr>daily_use := Some ((replicate 480 0 @ replicate 3 (1 / 1000) @ replicate 957 0)
                                 [480 := 100, 481 := 100]),
             free_spots := Some [(482, 483)]\<rparr>,
          [[480], [481]])"
  unfolding example_appliance_three_eq
  apply (simp add: ebind_def slice_fill_def slice_index_def py_int_def Let_def
      generate_load_profile_run_def skipped_def example_draws_def uniform_def in_day_types_def
      rand_windows_of_def calc_rand_window_def randint_def rand_total_time_of_use_def
      py_round_numeral random_variation_def fill_windows_def assign_random_cycles_def)
  apply (simp add: switch_on_loop.simps rand_switch_on_window_def indexes_choice_def arange_def
      upto_rec1 randint_def ebind_def Let_def uniform_def py_int_def switch_on_event_def
      within_peak_time_window_def calc_coincident_switch_on_def example_parameters_def
      update_daily_use_def np_put_def random_variation_def
      update_available_time_for_switch_on_events_def)
  done

lemma generate_single_one_appliance:
  assumes "App_list u = [b]" "0 \<le> day \<and> day < 365"
    and "np_index (power_series b) day = Inr p"
    and "generate_load_profile b (user_preference u) day peak dt p sp (draws 0) = Inr b'"
    and "daily_use b' = Some du" "length du = 1440"
  shows "generate_single_load_profile u day peak dt sp draws = Inr du"
  using assms by (simp add: generate_single_load_profile_def ebind_Inr vadd_zeros)

lemma generate_aggregated_one_appliance:
  assumes "App_list u = [b]" "num_users u = 1" "0 \<le> day \<and> day < 365"
    and "np_index (power_series b) day = Inr p"
    and "generate_load_profile b (user_preference u) day peak dt p sp (draws 0 0) = Inr b'"
    and "daily_use b' = Some du" "length du = 1440"
  shows "generate_aggregated_load_profile u day peak dt sp draws = Inr du"
  using assms generate_single_one_appliance [of u b day p peak dt sp "draws 0" b' du]
  by (simp add: generate_aggregated_load_profile_def ebind_Inr vadd_zeros)

lemma generate_daily_one_appliance:
  assumes "App_list u = [b]" "num_users u = 1"
    and "np_index (power_series b) 0 = Inr p"
    and "generate_load_profile b (user_preference u) 0 peak dt p sp (draws 0 0 0 0) = Inr b'"
    and "daily_use b' = Some du" "length du = 1440"
  shows "generate_daily_load_profiles [u] 1 peak dt sp draws = Inr [du]"
  using assms generate_aggregated_one_appliance [of u b 0 p peak dt sp "draws 0 0" b' du]
  by (simp add: generate_daily_load_profiles_def ebind_Inr vadd_zeros)

text \<open>
  Every level of aggregation is a plain sum of vectors of 1440 samples: the profile of a
  user is the sum of the \<open>daily_use\<close> vectors its appliances are left with, the
  aggregated profile is the sum over the members, the profile of the use case the sum
  over the users.
\<close>

lemma slice_fill_length: "slice_fill xs w v = Inr ys \<Longrightarrow> length ys = length xs"
  by (auto simp: slice_fill_def Let_def slice_index_def split: if_splits)

lemma fill_windows_length: "fill_windows xs ws v = Inr ys \<Longrightarrow> length ys = length xs"
proof (induction ws arbitrary: xs)
  case Nil
  then show ?case by (simp add: fill_windows_Nil)
next
  case (Cons w ws)
  from Cons.prems obtain zs where
    zs: "slice_fill xs w v = Inr zs" "fill_windows zs ws v = Inr ys"
    by (auto simp: fill_windows_Cons ebind_def split: sum.splits)
  from Cons.IH [OF zs(2)] slice_fill_length [OF zs(1)] show ?case by simp
qed

lemma generate_load_profile_length:
  assumes "generate_load_profile a up prof_i peak dt pw sp d = Inr a'"
  shows "\<exists>du. daily_use a' = Some du \<and> length du = 1440"
proof -
  let ?a0 = "a\<lparr>daily_use := Some (replicate 1440 0)\<rparr>"
  from assms obtain ev where
    run: "generate_load_profile_run a up prof_i peak dt pw sp d = Inr (a', ev)"
    by (auto simp: generate_load_profile_def ebind_def split: sum.splits)
  from run obtain skip where skip: "skipped ?a0 up dt d = Inr skip"
    unfolding generate_load_profile_run_def Let_def by (auto simp: ebind_def split: sum.splits)
  show ?thesis
  proof (cases skip)
    case True
    with run skip show ?thesis
      unfolding generate_load_profile_run_def Let_def by (auto simp: ebind_def)
  next
    case False
    with run skip obtain rws rand_time where
      rws: "rand_windows_of ?a0 d = Inr rws"
      unfolding generate_load_profile_run_def Let_def by (auto simp: ebind_def split: sum.splits)
    show ?thesis
    proof (cases "flat a = ''yes''")
      case True
      with run skip False rws obtain v du where
        "fill_windows (replicate 1440 0) rws v = Inr du" "daily_use a' = Some du"
        unfolding generate_load_profile_run_def Let_def
        by (auto simp: ebind_def split: sum.splits)
      with fill_windows_length [of "replicate 1440 0" rws v du] show ?thesis by simp
    next
      case nonflat: False
      with run skip False rws obtain rand_time du0 a1 st where
        fill: "fill_windows (replicate 1440 0) rws (1 / 1000) = Inr du0"
        and loop: "switch_on_loop a1 sp peak pw rand_time (step d) 0 0
                 \<lparr>ls_daily_use = du0, ls_free_spots = filter (\<lambda>rw. fst rw \<noteq> snd rw) rws,
                  ls_events = []\<rparr> = Inr st"
        and a': "daily_use a' = Some (ls_daily_use st)"
        unfolding generate_load_profile_run_def Let_def
        by (auto simp: ebind_def split: sum.splits)
      from rand_windows_of_clamped [OF rws]
      have "\<forall>s\<in>set (ls_free_spots
          \<lparr>ls_daily_use = du0, ls_free_spots = filter (\<lambda>rw. fst rw \<noteq> snd rw) rws,
           ls_events = []\<rparr>). 0 \<le> fst s"
        by simp
      from switch_on_loop_frame [OF loop this] fill_windows_length [OF fill] a'
      show ?thesis by simp
    qed
  qed
qed

lemma length_vadd: "length (vadd xs ys) = min (length xs) (length ys)"
  by (simp add: vadd_def)

lemma nth_vadd: "t < length xs \<Longrightarrow> t < length ys \<Longrightarrow> vadd xs ys ! t = xs ! t + ys ! t"
  by (simp add: vadd_def)

lemma single_load_loop_sum:
  assumes "single_load_loop up day peak dt sp draws i as acc = Inr load" "length acc = 1440"
  shows "\<exists>dus. list_all2
                  (\<lambda>aj du. \<exists>p a'. np_index (power_series (fst aj)) day = Inr p
                      \<and> generate_load_profile (fst aj) up day peak dt p sp (draws (snd aj)) = Inr a'
                      \<and> daily_use a' = Some du \<and> length du = 1440)
                  (zip as [i..<i + length as]) dus
              \<and> length load = 1440
              \<and> (\<forall>t<1440. load ! t = acc ! t + sum_list (map (\<lambda>du. du ! t) dus))"
  using assms
proof (induction as arbitrary: i acc)
  case Nil
  then show ?case by simp
next
  case (Cons a as)
  from Cons.prems(1) obtain p a' du where
    p: "np_index (power_series a) day = Inr p"
    and g: "generate_load_profile a up day peak dt p sp (draws i) = Inr a'"
    and du: "daily_use a' = Some du"
    and rest: "single_load_loop up day peak dt sp draws (Suc i) as (vadd acc du) = Inr load"
    by (auto simp: ebind_def split: sum.splits option.splits)
  from generate_load_profile_length [OF g] du have len: "length du = 1440" by simp
  with Cons.prems(2) have "length (vadd acc du) = 1440" by (simp add: length_vadd)
  from Cons.IH [OF rest this] obtain dus where
    dus: "list_all2
            (\<lambda>aj du. \<exists>p a'. np_index (power_series (fst aj)) day = Inr p
                \<and> generate_load_profile (fst aj) up day peak dt p sp (draws (snd aj)) = Inr a'
                \<and> daily_use a' = Some du \<and> length du = 1440)
            (zip as [Suc i..<Suc i + length as]) dus"
      "length load = 1440"
      "\<forall>t<1440. load ! t = vadd acc du ! t + sum_list (map (\<lambda>du. du ! t) dus)"
    by blast
  have upt: "[i..<i + length (a # as)] = i # [Suc i..<Suc i + length as]"
    by (simp add: upt_rec)
  have "list_all2
          (\<lambda>aj du. \<exists>p a'. np_index (power_series (fst aj)) day = Inr p
              \<and> generate_load_profile (fst aj) up day peak dt p sp (draws (snd aj)) = Inr a'
              \<and> daily_use a' = Some du \<and> length du = 1440)
          (zip (a # as) [i..<i + length (a # as)]) (du # dus)"
    unfolding upt using p g du len dus(1) by auto
  moreover have "\<forall>t<1440. load ! t = acc ! t + sum_list (map (\<lambda>du. du ! t) (du # dus))"
    using dus(3) len Cons.prems(2) by (simp add: nth_vadd)
  ultimately show ?case using dus(2) by blast
qed


lemma generate_single_load_profile_sum:
  assumes "generate_single_load_profile u day peak dt sp draws = Inr load"
  shows "\<exists>dus. list_all2
                  (\<lambda>aj du. \<exists>p a'. np_index (power_series (fst aj)) day = Inr p
                      \<and> generate_load_profile (fst aj) (user_preference u) day peak dt p sp
                            (draws (snd aj)) = Inr a'
                      \<and> daily_use a' = Some du \<and> length du = 1440)
                  (zip (App_list u) [0..<length (App_list u)]) dus
              \<and> length load = 1440
              \<and> (\<forall>t<1440. load ! t = sum_list (map (\<lambda>du. du ! t) dus))"
proof -
  from assms
  have "single_load_loop (user_preference u) day peak dt sp draws 0 (App_list u)
          (replicate 1440 0) = Inr load"
    by (simp add: generate_single_load_profile_def split: if_splits)
  from single_load_loop_sum [OF this] show ?thesis by simp
qed

lemma aggregated_load_loop_sum:
  assumes "aggregated_load_loop u day peak dt sp draws ms acc = Inr load" "length acc = 1440"
  shows "\<exists>singles. list_all2
                  (\<lambda>m single. generate_single_load_profile u day peak dt sp (draws m) = Inr single
                      \<and> length single = 1440)
                  ms singles
              \<and> length load = 1440
              \<and> (\<forall>t<1440. load ! t = acc ! t + sum_list (map (\<lambda>single. single ! t) singles))"
  using assms
proof (induction ms arbitrary: acc)
  case Nil
  then show ?case by simp
next
  case (Cons m ms)
  from Cons.prems(1) obtain single where
    s: "generate_single_load_profile u day peak dt sp (draws m) = Inr single"
    and rest: "aggregated_load_loop u day peak dt sp draws ms (vadd acc single) = Inr load"
    by (auto simp: ebind_def split: sum.splits)
  from generate_single_load_profile_sum [OF s] have len: "length single = 1440" by blast
  with Cons.prems(2) have "length (vadd acc single) = 1440" by (simp add: length_vadd)
  from Cons.IH [OF rest this] obtain singles where
    ss: "list_all2
          (\<lambda>m single. generate_single_load_profile u day peak dt sp (draws m) = Inr single
              \<and> length single = 1440) ms singles"
      "length load = 1440"
      "\<forall>t<1440. load ! t = vadd acc single ! t + sum_list (map (\<lambda>single. single ! t) singles)"
    by blast
  have "list_all2
          (\<lambda>m single. generate_single_load_profile u day peak dt sp (draws m) = Inr single
              \<and> length single = 1440) (m # ms) (single # singles)"
    using s len ss(1) by simp
  moreover have
    "\<forall>t<1440. load ! t = acc ! t + sum_list (map (\<lambda>single. single ! t) (single # singles))"
    using ss(3) len Cons.prems(2) by (simp add: nth_vadd)
  ultimately show ?case using ss(2) by blast
qed

lemma generate_aggregated_load_profile_sum:
  assumes "generate_aggregated_load_profile u day peak dt sp draws = Inr load"
  shows "\<exists>singles. list_all2
                  (\<lambda>m single. generate_single_load_profile u day peak dt sp (draws m) = Inr single
                      \<and> length single = 1440)
                  [0..<nat (num_users u)] singles
              \<and> length load = 1440
              \<and> (\<forall>t<1440. load ! t = sum_list (map (\<lambda>single. single ! t) singles))"
proof -
  from assms
  have "aggregated_load_loop u day peak dt sp draws [0..<nat (num_users u)] (replicate 1440 0)
          = Inr load"
    by (simp add: generate_aggregated_load_profile_def split: if_splits)
  from aggregated_load_loop_sum [OF this] show ?thesis by simp
qed

lemma usecase_load_loop_sum:
  assumes "usecase_load_loop day peak dt sp draws i us acc = Inr load" "length acc = 1440"
  shows "\<exists>loads. list_all2
                  (\<lambda>ui l. generate_aggregated_load_profile (fst ui) day peak dt sp (draws (snd ui))
                             = Inr l \<and> length l = 1440)
                  (zip us [i..<i + length us]) loads
              \<and> length load = 1440
              \<and> (\<forall>t<1440. load ! t = acc ! t + sum_list (map (\<lambda>l. l ! t) loads))"
  using assms
proof (induction us arbitrary: i acc)
  case Nil
  then show ?case by simp
next
  case (Cons u us)
  from Cons.prems(1) obtain l where
    l: "generate_aggregated_load_profile u day peak dt sp (draws i) = Inr l"
    and rest: "usecase_load_loop day peak dt sp draws (Suc i) us (vadd acc l) = Inr load"
    by (auto simp: ebind_def split: sum.splits)
  from generate_aggregated_load_profile_sum [OF l] have len: "length l = 1440" by blast
  with Cons.prems(2) have "length (vadd acc l) = 1440" by (simp add: length_vadd)
  from Cons.IH [OF rest this] obtain loads where
    ls: "list_all2
          (\<lambda>ui l. generate_aggregated_load_profile (fst ui) day peak dt sp (draws (snd ui))
                     = Inr l \<and> length l = 1440)
          (zip us [Suc i..<Suc i + length us]) loads"
      "length load = 1440"
      "\<forall>t<1440. load ! t = vadd acc l ! t + sum_list (map (\<lambda>l. l ! t) loads)"
    by blast
  have upt: "[i..<i + length (u # us)] = i # [Suc i..<Suc i + length us]"
    by (simp add: upt_rec)
  have "list_all2
          (\<lambda>ui l. generate_aggregated_load_profile (fst ui) day peak dt sp (draws (snd ui))
                     = Inr l \<and> length l = 1440)
          (zip (u # us) [i..<i + length (u # us)]) (l # loads)"
    unfolding upt using l len ls(1) by simp
  moreover have "\<forall>t<1440. load ! t = acc ! t + sum_list (map (\<lambda>l. l ! t) (l # loads))"
    using ls(3) len Cons.prems(2) by (simp add: nth_vadd)
  ultimately show ?case using ls(2) by blast
qed

lemma daily_profiles_loop_rows:
  assumes "daily_profiles_loop users peak dt sp draws days acc = Inr profiles"
  shows "\<exists>new. profiles = acc @ new
           \<and> list_all2
               (\<lambda>d profile. usecase_load_loop (int d) peak dt sp (draws d) 0 users
                               (replicate 1440 0) = Inr profile)
               days new"
  using assms
proof (induction days arbitrary: acc)
  case Nil
  then show ?case by simp
next
  case (Cons d days)
  from Cons.prems obtain profile where
    p: "usecase_load_loop (int d) peak dt sp (draws d) 0 users (replicate 1440 0) = Inr profile"
    and rest: "daily_profiles_loop users peak dt sp draws days (acc @ [profile]) = Inr profiles"
    by (auto simp: ebind_def split: sum.splits)
  from Cons.IH [OF rest] obtain new where
    "profiles = (acc @ [profile]) @ new"
    "list_all2
       (\<lambda>d profile. usecase_load_loop (int d) peak dt sp (draws d) 0 users
                       (replicate 1440 0) = Inr profile) days new"
    by blast
  with p show ?case by (intro exI [of _ "profile # new"]) simp
qed

lemma generate_daily_load_profiles_sum:
  assumes "generate_daily_load_profiles users n peak dt sp draws = Inr profiles"
  shows "list_all2
           (\<lambda>d profile. \<exists>loads.
              list_all2
                (\<lambda>ui l. generate_aggregated_load_profile (fst ui) (int d) peak dt sp
                           (draws d (snd ui)) = Inr l \<and> length l = 1440)
                (zip users [0..<length users]) loads
              \<and> length profile = 1440
              \<and> (\<forall>t<1440. profile ! t = sum_list (map (\<lambda>l. l ! t) loads)))
           [0..<nat n] profiles"
proof -
  from assms daily_profiles_loop_rows [of users peak dt sp draws "[0..<nat n]" "[]" profiles]
  have rows: "list_all2
               (\<lambda>d profile. usecase_load_loop (int d) peak dt sp (draws d) 0 users
                               (replicate 1440 0) = Inr profile)
               [0..<nat n] profiles"
    by (simp add: generate_daily_load_profiles_def)
  show ?thesis
  proof (rule list_all2_mono [OF rows])
    fix d profile
    assume "usecase_load_loop (int d) peak dt sp (draws d) 0 users (replicate 1440 0)
              = Inr profile"
    from usecase_load_loop_sum [OF this] 
    show "\<exists>loads.
              list_all2
                (\<lambda>ui l. generate_aggregated_load_profile (fst ui) (int d) peak dt sp
                           (draws d (snd ui)) = Inr l \<and> length l = 1440)
                (zip users [0..<length users]) loads
              \<and> length profile = 1440
              \<and> (\<forall>t<1440. profile ! t = sum_list (map (\<lambda>l. l ! t) loads))"
      by simp
  qed
qed


text \<open>
  C10. For a non-flat appliance that passes the eligibility checks, once
  \<open>generate_load_profile\<close> has returned, every minute that lies in a jittered window
  and in no index vector written by a switch-on event holds the sentinel 0.001 in
  \<open>daily_use\<close>: it is not reset to zero. The \<open>daily_use\<close> vectors enter the aggregates
  as they are: at every minute the profile of a user is the sum of the \<open>daily_use\<close>
  values of its appliances, the aggregated profile the sum of the profiles of the
  members, and each daily profile of the use case the sum of the aggregated profiles of
  the users.
\<close>

theorem sentinel_kept:
  "(flat a \<noteq> ''yes'' \<and> skipped a up dt d = Inr False \<and> rand_windows_of a d = Inr rws
      \<and> generate_load_profile_run a up prof_i peak dt pw sp d = Inr (a', events)
    \<longrightarrow> generate_load_profile a up prof_i peak dt pw sp d = Inr a'
        \<and> (\<exists>du. daily_use a' = Some du \<and> length du = 1440
              \<and> (\<forall>t<1440. (\<exists>w\<in>set rws. fst w \<le> int t \<and> int t < snd w)
                             \<and> (\<forall>e\<in>set events. int t \<notin> set e)
                    \<longrightarrow> du ! t = 1 / 1000)))
   \<and> (generate_single_load_profile u day pk dy sq draws1 = Inr single
    \<longrightarrow> (\<exists>dus. list_all2
                  (\<lambda>aj du. \<exists>p a'. np_index (power_series (fst aj)) day = Inr p
                      \<and> generate_load_profile (fst aj) (user_preference u) day pk dy p sq
                            (draws1 (snd aj)) = Inr a'
                      \<and> daily_use a' = Some du \<and> length du = 1440)
                  (zip (App_list u) [0..<length (App_list u)]) dus
              \<and> length single = 1440
              \<and> (\<forall>t<1440. single ! t = sum_list (map (\<lambda>du. du ! t) dus))))
   \<and> (generate_aggregated_load_profile u day pk dy sq draws2 = Inr load
    \<longrightarrow> (\<exists>singles. list_all2
                  (\<lambda>m s. generate_single_load_profile u day pk dy sq (draws2 m) = Inr s
                      \<and> length s = 1440)
                  [0..<nat (num_users u)] singles
              \<and> length load = 1440
              \<and> (\<forall>t<1440. load ! t = sum_list (map (\<lambda>s. s ! t) singles))))
   \<and> (generate_daily_load_profiles users n pk dy sq draws4 = Inr profiles
    \<longrightarrow> list_all2
           (\<lambda>d profile. \<exists>loads.
              list_all2
                (\<lambda>ui l. generate_aggregated_load_profile (fst ui) (int d) pk dy sq
                           (draws4 d (snd ui)) = Inr l \<and> length l = 1440)
                (zip users [0..<length users]) loads
              \<and> length profile = 1440
              \<and> (\<forall>t<1440. profile ! t = sum_list (map (\<lambda>l. l ! t) loads)))
           [0..<nat n] profiles)"
proof (intro conjI impI)
  assume h: "flat a \<noteq> ''yes'' \<and> skipped a up dt d = Inr False \<and> rand_windows_of a d = Inr rws
      \<and> generate_load_profile_run a up prof_i peak dt pw sp d = Inr (a', events)"
  then show "generate_load_profile a up prof_i peak dt pw sp d = Inr a'"
    by (simp add: generate_load_profile_def ebind_Inr)
  from h show "\<exists>du. daily_use a' = Some du \<and> length du = 1440
              \<and> (\<forall>t<1440. (\<exists>w\<in>set rws. fst w \<le> int t \<and> int t < snd w)
                             \<and> (\<forall>e\<in>set events. int t \<notin> set e)
                    \<longrightarrow> du ! t = 1 / 1000)"
    using generate_load_profile_run_sentinel [of a up dt d rws prof_i peak pw sp a' events]
    by blast
next
  assume "generate_single_load_profile u day pk dy sq draws1 = Inr single"
  from generate_single_load_profile_sum [OF this]
  show "\<exists>dus. list_all2
                  (\<lambda>aj du. \<exists>p a'. np_index (power_series (fst aj)) day = Inr p
                      \<and> generate_load_profile (fst aj) (user_preference u) day pk dy p sq
                            (draws1 (snd aj)) = Inr a'
                      \<and> daily_use a' = Some du \<and> length du = 1440)
                  (zip (App_list u) [0..<length (App_list u)]) dus
              \<and> length single = 1440
              \<and> (\<forall>t<1440. single ! t = sum_list (map (\<lambda>du. du ! t) dus))" .
next
  assume "generate_aggregated_load_profile u day pk dy sq draws2 = Inr load"
  from generate_aggregated_load_profile_sum [OF this]
  show "\<exists>singles. list_all2
                  (\<lambda>m s. generate_single_load_profile u day pk dy sq (draws2 m) = Inr s
                      \<and> length s = 1440)
                  [0..<nat (num_users u)] singles
              \<and> length load = 1440
              \<and> (\<forall>t<1440. load ! t = sum_list (map (\<lambda>s. s ! t) singles))" .
next
  assume "generate_daily_load_profiles users n pk dy sq draws4 = Inr profiles"
  from generate_daily_load_profiles_sum [OF this]
  show "list_all2
           (\<lambda>d profile. \<exists>loads.
              list_all2
                (\<lambda>ui l. generate_aggregated_load_profile (fst ui) (int d) pk dy sq
                           (draws4 d (snd ui)) = Inr l \<and> length l = 1440)
                (zip users [0..<length users]) loads
              \<and> length profile = 1440
              \<and> (\<forall>t<1440. profile ! t = sum_list (map (\<lambda>l. l ! t) loads)))
           [0..<nat n] profiles" .
qed

theorem sentinel_kept_witness:
  "flat (projr (example_appliance ''no'' 2 1 2 (480, 483))) \<noteq> ''yes''
   \<and> skipped (projr (example_appliance ''no'' 2 1 2 (480, 483))) 0 (DayInt 0) example_draws
       = Inr False
   \<and> rand_windows_of (projr (example_appliance ''no'' 2 1 2 (480, 483))) example_draws
       = Inr [(480, 483), (0, 0), (0, 0)]
   \<and> (\<exists>a' du.
         generate_load_profile_run (projr (example_appliance ''no'' 2 1 2 (480, 483))) 0 0 [700]
           (DayInt 0) 100 example_parameters example_draws = Inr (a', [[480], [481]])
       \<and> daily_use a' = Some du \<and> length du = 1440 \<and> du ! 480 = 100 \<and> du ! 482 = 1 / 1000
       \<and> generate_single_load_profile (example_user ''no'' 2 2 (480, 483)) 0 [700] (DayInt 0)
           example_parameters (\<lambda>j. example_draws) = Inr du
       \<and> generate_aggregated_load_profile (example_user ''no'' 2 2 (480, 483)) 0 [700] (DayInt 0)
           example_parameters (\<lambda>m j. example_draws) = Inr du
       \<and> generate_daily_load_profiles [example_user ''no'' 2 2 (480, 483)] 1 [700] (DayInt 0)
           example_parameters (\<lambda>d i m j. example_draws) = Inr [du])"
proof -
  let ?a = "projr (example_appliance ''no'' 2 1 2 (480, 483))"
  let ?u = "example_user ''no'' 2 2 (480, 483)"
  let ?du = "(replicate 480 0 @ replicate 3 (1 / 1000) @ replicate 957 (0 :: real))
               [480 := 100, 481 := 100]"
  let ?a' = "?a\<lparr>daily_use := Some ?du, free_spots := Some [(482, 483)]\<rparr>"
  have 1: "flat ?a \<noteq> ''yes''" by (simp add: example_appliance_three_eq)
  have 2: "skipped ?a 0 (DayInt 0) example_draws = Inr False"
    by (simp add: example_appliance_three_eq skipped_def example_draws_def ebind_def uniform_def
        in_day_types_def)
  have 3: "rand_windows_of ?a example_draws = Inr [(480, 483), (0, 0), (0, 0)]"
    by (simp add: example_appliance_three_eq rand_windows_of_def calc_rand_window_def randint_def
        ebind_def example_draws_def)
  note 4 = example_nonflat_run
  note T = sentinel_kept [where a = ?a and up = 0 and dt = "DayInt 0" and d = example_draws
      and rws = "[(480, 483), (0, 0), (0, 0)]" and prof_i = 0 and peak = "[700]" and pw = 100
      and sp = example_parameters and ?a' = ?a' and events = "[[480], [481]]"]
  from T 1 2 3 4 obtain du where
    du: "generate_load_profile ?a 0 0 [700] (DayInt 0) 100 example_parameters example_draws
           = Inr ?a'"
        "daily_use ?a' = Some du" "length du = 1440"
        "\<forall>t<1440. (\<exists>w\<in>set [(480 :: int, 483 :: int), (0, 0), (0, 0)].
                        fst w \<le> int t \<and> int t < snd w)
                   \<and> (\<forall>e\<in>set [[480 :: int], [481]]. int t \<notin> set e)
             \<longrightarrow> du ! t = 1 / 1000"
    by blast
  from du(2) have eq: "du = ?du" by simp
  from du(4) have "du ! 482 = 1 / 1000" by simp
  moreover have "du ! 480 = 100" unfolding eq by (simp add: nth_append)
  moreover have 5: "App_list ?u = [?a]" "num_users ?u = 1" "user_preference ?u = 0"
    by (simp_all add: example_user_def)
  have 6: "np_index (power_series ?a) 0 = Inr 100"
    by (simp add: example_appliance_three_eq np_index_def)
  have 7: "daily_use ?a' = Some ?du" "length ?du = 1440" by simp_all
  have "generate_single_load_profile ?u 0 [700] (DayInt 0) example_parameters
          (\<lambda>j. example_draws) = Inr ?du"
    using generate_single_one_appliance
      [of ?u ?a 0 100 "[700]" "DayInt 0" example_parameters "\<lambda>j. example_draws" ?a' ?du]
      5 6 7 du(1) by simp
  moreover have "generate_aggregated_load_profile ?u 0 [700] (DayInt 0) example_parameters
          (\<lambda>m j. example_draws) = Inr ?du"
    using generate_aggregated_one_appliance
      [of ?u ?a 0 100 "[700]" "DayInt 0" example_parameters "\<lambda>m j. example_draws" ?a' ?du]
      5 6 7 du(1) by simp
  moreover have "generate_daily_load_profiles [?u] 1 [700] (DayInt 0) example_parameters
          (\<lambda>d i m j. example_draws) = Inr [?du]"
    using generate_daily_one_appliance
      [of ?u ?a 100 "[700]" "DayInt 0" example_parameters "\<lambda>d i m j. example_draws" ?a' ?du]
      5 6 7 du(1) by simp
  ultimately show ?thesis using 1 2 3 4 du(2,3) unfolding eq by blast
qed


subsection \<open>The day index and the power of the day\<close>

text \<open>
  The loop of \<open>generate_single_load_profile\<close> hands every appliance the entry
  \<^verbatim>\<open>power[prof_i]\<close> of its power series. The seasonal appliance tells the days apart:
  50 W on day 0, 100 W on day 200.
\<close>

lemma seasonal_appliance_eq:
  "seasonal_appliance =
     Inr \<lparr>number = 2, power_series = replicate 100 50 @ replicate 265 100, num_windows = 1,
          func_time = 2, time_fraction_random_variability = 0,
          func_cycle = 1, fixed = ''no'', fixed_cycle = 0,
          occasional_use = 1, flat = ''no'', thermal_p_var = 0,
          pref_index = 0, wd_we_type = 2, random_var_w = 0,
          window_1 = (480, 483), window_2 = (0, 0), window_3 = (0, 0),
          random_var_1 = 0, random_var_2 = 0, random_var_3 = 0,
          daily_use = Some (replicate 480 0 @ replicate 3 (1 / 1000) @ replicate 957 0),
          free_spots = None, cw11 = (0, 0), cw12 = (0, 0), cw21 = (0, 0),
          cw22 = (0, 0), cw31 = (0, 0), cw32 = (0, 0), random_cycle1 = [],
          random_cycle2 = [], random_cycle3 = []\<rparr>"
  by (simp add: seasonal_appliance_def Appliance_init_def Appliance_init_power_def
      frame_shape_def first_column_def ebind_def
      windows_def window_time_def np_diff_def slice_fill_def slice_index_def py_int_def Let_def)

lemma seasonal_run:
  "generate_load_profile_run (projr seasonal_appliance) 0 200 [700]
     (DayInt 0) 100 example_parameters example_draws
   = Inr ((projr seasonal_appliance)
            \<lparr>daily_use := Some ((replicate 480 0 @ replicate 3 (1 / 1000) @ replicate 957 0)
                                 [480 := 100, 481 := 100]),
             free_spots := Some [(482, 483)]\<rparr>,
          [[480], [481]])"
  unfolding seasonal_appliance_eq
  apply (simp add: ebind_def slice_fill_def slice_index_def py_int_def Let_def
      generate_load_profile_run_def skipped_def example_draws_def uniform_def in_day_types_def
      rand_windows_of_def calc_rand_window_def randint_def rand_total_time_of_use_def
      py_round_numeral random_variation_def fill_windows_def assign_random_cycles_def)
  apply (simp add: switch_on_loop.simps rand_switch_on_window_def indexes_choice_def arange_def
      upto_rec1 randint_def ebind_def Let_def uniform_def py_int_def switch_on_event_def
      within_peak_time_window_def calc_coincident_switch_on_def example_parameters_def
      update_daily_use_def np_put_def random_variation_def
      update_available_time_for_switch_on_events_def)
  done

lemma seasonal_power:
  "power_series (projr seasonal_appliance) ! 0 = 50"
  "power_series (projr seasonal_appliance) ! 200 = 100"
  "length (power_series (projr seasonal_appliance)) = 365"
  by (simp_all add: seasonal_appliance_eq nth_append)

lemma np_index_nonneg:
  "0 \<le> i \<Longrightarrow> np_index xs i = Inr p \<longleftrightarrow> i < int (length xs) \<and> p = xs ! nat i"
  by (auto simp: np_index_def)

lemma single_load_loop_step:
  assumes "0 \<le> d"
  shows "single_load_loop up d peak dt sp draws i (a # as) acc =
     (if int (length (power_series a)) \<le> d then Inl IndexError
      else ebind (generate_load_profile a up d peak dt (power_series a ! nat d) sp (draws i))
             (\<lambda>a'. case daily_use a' of None \<Rightarrow> Inl TypeError
                   | Some du \<Rightarrow> single_load_loop up d peak dt sp draws (Suc i) as (vadd acc du)))"
  using assms by (simp add: np_index_def ebind_def)

text \<open>
  C8, as the claim states it, fails at the day index 365: the claim accepts it, the
  guard \<^verbatim>\<open>prof_i not in range(365)\<close> refuses it (though the power series of an
  appliance built from a number has an entry for it).
\<close>

theorem day_index_365_counterexample:
  "generate_single_load_profile (example_user ''yes'' 120 2 (480, 600)) 365 [] (DayInt 0)
     example_parameters (\<lambda>j. example_draws) = Inl InvalidDayIndex
   \<and> generate_aggregated_load_profile (example_user ''yes'' 120 2 (480, 600)) 365 [] (DayInt 0)
     example_parameters (\<lambda>m j. example_draws) = Inl InvalidDayIndex
   \<and> np_index (power_series (projr (example_appliance ''yes'' 120 1 2 (480, 600)))) 365
     = Inr 100"
  by (simp add: generate_single_load_profile_def generate_aggregated_load_profile_def
      power_series_example np_index_def)

text \<open>
  C8, amended. For every day index \<open>d\<close> of \<open>[0, 364]\<close> the calls
  \<open>generate_single_load_profile\<close> and \<open>generate_aggregated_load_profile\<close> with
  \<open>prof_i = d\<close> pass the day-index check, and power is indexed as \<^verbatim>\<open>power[d]\<close>:
  the call runs the loop over the appliances, and each step of the loop raises
  IndexError when the power series of the appliance has no entry \<open>d\<close> and otherwise
  generates the profile of the appliance with \<open>power = power[d]\<close>; so a profile that
  is returned is, minute by minute, the sum of the \<open>daily_use\<close> vectors generated with
  the powers \<open>power[d]\<close>, and an aggregated profile is the sum of such profiles. The
  day-index error is raised exactly for the indexes outside \<open>[0, 365)\<close>, the index 365
  included. (No other failure of the call is this error.)
\<close>

theorem day_index_guard:
  "(generate_single_load_profile u d peak dt sp draws = Inl InvalidDayIndex
      \<longleftrightarrow> \<not> (0 \<le> d \<and> d < 365))
   \<and> (generate_aggregated_load_profile u d peak dt sp draws' = Inl InvalidDayIndex
      \<longleftrightarrow> \<not> (0 \<le> d \<and> d < 365))
   \<and> (0 \<le> d \<and> d < 365 \<longrightarrow>
        generate_single_load_profile u d peak dt sp draws
          = single_load_loop (user_preference u) d peak dt sp draws 0 (App_list u)
              (replicate 1440 0)
        \<and> single_load_loop up d peak dt sp draws i (a # as) acc =
           (if int (length (power_series a)) \<le> d then Inl IndexError
            else ebind (generate_load_profile a up d peak dt (power_series a ! nat d) sp (draws i))
                   (\<lambda>a'. case daily_use a' of None \<Rightarrow> Inl TypeError
                         | Some du \<Rightarrow>
                             single_load_loop up d peak dt sp draws (Suc i) as (vadd acc du))))
   \<and> (generate_single_load_profile u d peak dt sp draws = Inr single \<longrightarrow>
        (\<exists>dus. list_all2
                  (\<lambda>aj du. d < int (length (power_series (fst aj)))
                      \<and> (\<exists>a'. generate_load_profile (fst aj) (user_preference u) d peak dt
                                 (power_series (fst aj) ! nat d) sp (draws (snd aj)) = Inr a'
                               \<and> daily_use a' = Some du))
                  (zip (App_list u) [0..<length (App_list u)]) dus
              \<and> (\<forall>t<1440. single ! t = sum_list (map (\<lambda>du. du ! t) dus))))
   \<and> (generate_aggregated_load_profile u d peak dt sp draws' = Inr load \<longrightarrow>
        (\<exists>singles. list_all2
                  (\<lambda>m s. generate_single_load_profile u d peak dt sp (draws' m) = Inr s)
                  [0..<nat (num_users u)] singles
              \<and> (\<forall>t<1440. load ! t = sum_list (map (\<lambda>s. s ! t) singles))))"
proof (intro conjI impI)
  show "generate_single_load_profile u d peak dt sp draws = Inl InvalidDayIndex
      \<longleftrightarrow> \<not> (0 \<le> d \<and> d < 365)"
    by (rule generate_single_load_profile_day)
  show "generate_aggregated_load_profile u d peak dt sp draws' = Inl InvalidDayIndex
      \<longleftrightarrow> \<not> (0 \<le> d \<and> d < 365)"
    using aggregated_load_loop_not_day [of d]
    by (auto simp: generate_aggregated_load_profile_def)
next
  assume "0 \<le> d \<and> d < 365"
  then show "generate_single_load_profile u d peak dt sp draws
          = single_load_loop (user_preference u) d peak dt sp draws 0 (App_list u)
              (replicate 1440 0)"
    by (simp add: generate_single_load_profile_def)
next
  assume "0 \<le> d \<and> d < 365"
  then show "single_load_loop up d peak dt sp draws i (a # as) acc =
           (if int (length (power_series a)) \<le> d then Inl IndexError
            else ebind (generate_load_profile a up d peak dt (power_series a ! nat d) sp (draws i))
                   (\<lambda>a'. case daily_use a' of None \<Rightarrow> Inl TypeError
                         | Some du \<Rightarrow>
                             single_load_loop up d peak dt sp draws (Suc i) as (vadd acc du)))"
    by (intro single_load_loop_step) simp
next
  assume r: "generate_single_load_profile u d peak dt sp draws = Inr single"
  then have d: "0 \<le> d"
    by (simp add: generate_single_load_profile_def split: if_splits)
  from generate_single_load_profile_sum [OF r] obtain dus where
    dus: "list_all2
            (\<lambda>aj du. \<exists>p a'. np_index (power_series (fst aj)) d = Inr p
                \<and> generate_load_profile (fst aj) (user_preference u) d peak dt p sp
                      (draws (snd aj)) = Inr a'
                \<and> daily_use a' = Some du \<and> length du = 1440)
            (zip (App_list u) [0..<length (App_list u)]) dus"
      "\<forall>t<1440. single ! t = sum_list (map (\<lambda>du. du ! t) dus)"
    by blast
  have "list_all2
          (\<lambda>aj du. d < int (length (power_series (fst aj)))
              \<and> (\<exists>a'. generate_load_profile (fst aj) (user_preference u) d peak dt
                         (power_series (fst aj) ! nat d) sp (draws (snd aj)) = Inr a'
                       \<and> daily_use a' = Some du))
          (zip (App_list u) [0..<length (App_list u)]) dus"
    by (rule list_all2_mono [OF dus(1)]) (auto simp: np_index_nonneg [OF d])
  with dus(2)
  show "\<exists>dus. list_all2
                  (\<lambda>aj du. d < int (length (power_series (fst aj)))
                      \<and> (\<exists>a'. generate_load_profile (fst aj) (user_preference u) d peak dt
                                 (power_series (fst aj) ! nat d) sp (draws (snd aj)) = Inr a'
                               \<and> daily_use a' = Some du))
                  (zip (App_list u) [0..<length (App_list u)]) dus
              \<and> (\<forall>t<1440. single ! t = sum_list (map (\<lambda>du. du ! t) dus))"
    by blast
next
  assume "generate_aggregated_load_profile u d peak dt sp draws' = Inr load"
  from generate_aggregated_load_profile_sum [OF this] obtain singles where
    s: "list_all2
          (\<lambda>m single. generate_single_load_profile u d peak dt sp (draws' m) = Inr single
              \<and> length single = 1440)
          [0..<nat (num_users u)] singles"
       "\<forall>t<1440. load ! t = sum_list (map (\<lambda>single. single ! t) singles)"
    by blast
  have "list_all2 (\<lambda>m s. generate_single_load_profile u d peak dt sp (draws' m) = Inr s)
          [0..<nat (num_users u)] singles"
    by (rule list_all2_mono [OF s(1)]) simp
  with s(2)
  show "\<exists>singles. list_all2
                  (\<lambda>m s. generate_single_load_profile u d peak dt sp (draws' m) = Inr s)
                  [0..<nat (num_users u)] singles
              \<and> (\<forall>t<1440. load ! t = sum_list (map (\<lambda>s. s ! t) singles))"
    by blast
qed

theorem day_index_guard_witness:
  "(0 :: int) \<le> 200 \<and> (200 :: int) < 365
   \<and> power_series (projr seasonal_appliance) ! 0 = 50
   \<and> power_series (projr seasonal_appliance) ! 200 = 100
   \<and> generate_single_load_profile seasonal_user 200 [700] (DayInt 0) example_parameters
        (\<lambda>j. example_draws)
      = Inr ((replicate 480 0 @ replicate 3 (1 / 1000) @ replicate 957 0)
               [480 := 100, 481 := 100])
   \<and> generate_aggregated_load_profile seasonal_user 200 [700] (DayInt 0) example_parameters
        (\<lambda>m j. example_draws)
      = Inr ((replicate 480 0 @ replicate 3 (1 / 1000) @ replicate 957 0)
               [480 := 100, 481 := 100])
   \<and> (\<exists>a' du. generate_load_profile (projr seasonal_appliance) 0 200 [700] (DayInt 0)
                  (power_series (projr seasonal_appliance) ! 200) example_parameters
                  example_draws = Inr a'
              \<and> daily_use a' = Some du \<and> du ! 480 = 100)"
proof -
  let ?a = "projr seasonal_appliance"
  let ?u = "seasonal_user"
  let ?du = "(replicate 480 0 @ replicate 3 (1 / 1000) @ replicate 957 (0 :: real))
               [480 := 100, 481 := 100]"
  let ?a' = "?a\<lparr>daily_use := Some ?du, free_spots := Some [(482, 483)]\<rparr>"
  have u: "App_list ?u = [?a]" "num_users ?u = 1" "user_preference ?u = 0"
    by (simp_all add: seasonal_user_def)
  have p: "np_index (power_series ?a) 200 = Inr 100"
    by (simp add: np_index_def seasonal_power)
  have g: "generate_load_profile ?a (user_preference ?u) 200 [700] (DayInt 0) 100
             example_parameters example_draws = Inr ?a'"
    by (simp add: generate_load_profile_def seasonal_run ebind_def u)
  have du: "daily_use ?a' = Some ?du" "length ?du = 1440" by simp_all
  have s: "generate_single_load_profile ?u 200 [700] (DayInt 0) example_parameters
             (\<lambda>j. example_draws) = Inr ?du"
    using generate_single_one_appliance
      [of ?u ?a 200 100 "[700]" "DayInt 0" example_parameters "\<lambda>j. example_draws" ?a' ?du]
      u p g du by simp
  have ag: "generate_aggregated_load_profile ?u 200 [700] (DayInt 0) example_parameters
             (\<lambda>m j. example_draws) = Inr ?du"
    using generate_aggregated_one_appliance
      [of ?u ?a 200 100 "[700]" "DayInt 0" example_parameters "\<lambda>m j. example_draws" ?a' ?du]
      u p g du by simp
  note T = day_index_guard [where u = ?u and d = 200 and peak = "[700]" and dt = "DayInt 0"
      and sp = example_parameters and draws = "\<lambda>j. example_draws"
      and draws' = "\<lambda>m j. example_draws" and single = ?du and load = ?du
      and up = 0 and i = 0 and a = ?a and as = "[]" and acc = "replicate 1440 0"]
  from T s obtain dus where
    dus: "list_all2
            (\<lambda>aj du. 200 < int (length (power_series (fst aj)))
                \<and> (\<exists>a'. generate_load_profile (fst aj) (user_preference ?u) 200 [700] (DayInt 0)
                           (power_series (fst aj) ! nat 200) example_parameters
                           example_draws = Inr a'
                         \<and> daily_use a' = Some du))
            (zip (App_list ?u) [0..<length (App_list ?u)]) dus"
      "\<forall>t<1440. ?du ! t = sum_list (map (\<lambda>du. du ! t) dus)"
    by blast
  from dus(1) obtain a' du where
    a': "generate_load_profile ?a 0 200 [700] (DayInt 0) (power_series ?a ! 200)
           example_parameters example_draws = Inr a'" "daily_use a' = Some du" "dus = [du]"
    by (auto simp: u list_all2_Cons1)
  from dus(2) [rule_format, of 480] a'(3) have "?du ! 480 = du ! 480" by simp
  moreover have "?du ! 480 = 100" by (simp add: nth_append)
  ultimately have "du ! 480 = 100" by simp
  with a'(1,2) s ag show ?thesis by (simp add: seasonal_power)
qed


subsection \<open>The maximum profile in general\<close>

text \<open>
  What \<open>maximum_profile\<close> is after \<open>windows\<close>, for windows within the day: the mask of
  the windows, 0.001 inside, times the mean power and the number of copies.
\<close>

lemma windows_daily_use:
  assumes "windows a w1 w2 rvw w3 = Inr a'"
  shows "\<exists>du. fill_windows (replicate 1440 0) [window_1 a', window_2 a', window_3 a'] (1 / 1000)
                = Inr du
              \<and> daily_use a' = Some du \<and> power_series a' = power_series a
              \<and> number a' = number a"
  using assms
  by (auto simp: windows_def Let_def ebind_def fill_windows_Cons fill_windows_Nil
      split: if_splits sum.splits option.splits)

lemma windows_maximum_profile:
  assumes w: "windows a w1 w2 rvw w3 = Inr a'"
    and valid: "\<forall>w\<in>set [window_1 a', window_2 a', window_3 a'].
                  0 \<le> fst w \<and> fst w \<le> snd w \<and> snd w \<le> 1440"
  shows "\<exists>prof. maximum_profile a' = Inr prof \<and> length prof = 1440
           \<and> (\<forall>t<1440. prof ! t =
                 (if \<exists>w\<in>set [window_1 a', window_2 a', window_3 a'].
                       fst w \<le> int t \<and> int t < snd w
                  then 1 / 1000 * mean (power_series a) * real_of_int (number a) else 0))"
proof -
  from windows_daily_use [OF w] obtain du where
    du: "fill_windows (replicate 1440 0) [window_1 a', window_2 a', window_3 a'] (1 / 1000)
           = Inr du"
        "daily_use a' = Some du" "power_series a' = power_series a" "number a' = number a"
    by blast
  from valid
  have "\<forall>w\<in>set [window_1 a', window_2 a', window_3 a'].
          0 \<le> fst w \<and> fst w \<le> snd w \<and> snd w \<le> int 1440"
    by simp
  from fill_windows_zeros [OF this, of "1 / 1000"] du(1)
  have len: "length du = 1440"
    and nth: "\<forall>t<1440. du ! t =
                (if \<exists>w\<in>set [window_1 a', window_2 a', window_3 a'].
                      fst w \<le> int t \<and> int t < snd w
                 then 1 / 1000 else 0)"
    by auto
  let ?prof = "map (\<lambda>x. x * mean (power_series a) * real_of_int (number a)) du"
  have "maximum_profile a' = Inr ?prof"
    by (simp add: maximum_profile_def du(2,3,4))
  moreover have "length ?prof = 1440" using len by simp
  moreover have "\<forall>t<1440. ?prof ! t =
                 (if \<exists>w\<in>set [window_1 a', window_2 a', window_3 a'].
                       fst w \<le> int t \<and> int t < snd w
                  then 1 / 1000 * mean (power_series a) * real_of_int (number a) else 0)"
    using len nth by simp
  ultimately show ?thesis by blast
qed

end
